theory Spec2Isabelle
  imports Complex_Main
begin

section \<open>Smart Mortgage Accelerator: the calculation engine\<close>

text \<open>
  A shallow embedding of the calculation engine of the repository: the standard engine
  (\<^verbatim>\<open>calculateMonthlyEMI\<close>, \<^verbatim>\<open>generateAmortizationSchedule\<close>,
  \<^verbatim>\<open>calculatePartPaymentImpact\<close>) and the date-aware engine
  (\<^verbatim>\<open>getPaymentDate\<close>, \<^verbatim>\<open>calculateAdvancedMortgage\<close>).

  Conventions of the model:
  \<^item> a JavaScript \<^verbatim>\<open>number\<close> that holds money or a rate is a \<^typ>\<open>real\<close> and arithmetic
    is exact; the standard schedule generator is given a second time with the rounding
    of every operation to double precision written out, for the one property that
    depends on it;
  \<^item> a tenure in months and every loop counter is a \<^typ>\<open>nat\<close>, so \<^verbatim>\<open>Math.pow(1 + r, n)\<close>
    is the power \<open>(1 + r) ^ n\<close>;
  \<^item> a loop that the source does not bound is a \<^theory_text>\<open>partial_function\<close> into
    \<open>option\<close>: \<open>None\<close> means that the loop never returns.
\<close>

subsection \<open>Standard engine: EMI\<close>

definition calculateMonthlyEMI :: "real \<Rightarrow> real \<Rightarrow> nat \<Rightarrow> real" where
  "calculateMonthlyEMI princ annualRate tenureMonths =
     (let monthlyRate = annualRate / 12 / 100 in
      if monthlyRate = 0 then princ / real tenureMonths
      else
        let numerator = monthlyRate * (1 + monthlyRate) ^ tenureMonths;
            denominator = (1 + monthlyRate) ^ tenureMonths - 1
        in (princ * numerator) / denominator)"

definition calculateTotalInterestAndAmount :: "real \<Rightarrow> real \<Rightarrow> nat \<Rightarrow> real \<times> real" where
  "calculateTotalInterestAndAmount princ monthlyEMI tenureMonths =
     (let totalAmount = monthlyEMI * real tenureMonths;
          totalInterest = totalAmount - princ
      in (totalInterest, totalAmount))"

subsection \<open>Standard engine: the amortization schedule\<close>

record PaymentRecord =
  month :: nat
  year :: nat
  payment :: real
  principal :: real
  interest :: real
  balance :: real

text \<open>
  The loop variables of \<^verbatim>\<open>generateAmortizationSchedule\<close>, and one pass through the body
  of its loop. The counter \<open>month\<close> is the one the guard reads and the body resets to 0
  when it reaches 12.
\<close>

record sched_state =
  ss_balance :: real
  ss_month :: nat
  ss_year :: nat
  ss_schedule :: "PaymentRecord list"

definition sched_step :: "real \<Rightarrow> real \<Rightarrow> real \<Rightarrow> sched_state \<Rightarrow> sched_state" where
  "sched_step monthlyEMI monthlyRate monthlyOverpayment st =
     (let bal = ss_balance st;
          interestPayment = bal * monthlyRate;
          principalPayment0 = monthlyEMI - interestPayment + monthlyOverpayment;
          principalPayment = (if principalPayment0 > bal then bal else principalPayment0);
          totalPayment = interestPayment + principalPayment;
          bal' = bal - principalPayment;
          schedule' = ss_schedule st @
            [\<lparr>month = ss_month st + 1, year = ss_year st, payment = totalPayment,
              principal = principalPayment, interest = interestPayment,
              balance = max 0 bal'\<rparr>];
          mon' = ss_month st + 1
      in if mon' = 12
         then \<lparr>ss_balance = bal', ss_month = 0, ss_year = ss_year st + 1, ss_schedule = schedule'\<rparr>
         else \<lparr>ss_balance = bal', ss_month = mon', ss_year = ss_year st, ss_schedule = schedule'\<rparr>)"

definition sched_guard :: "nat \<Rightarrow> sched_state \<Rightarrow> bool" where
  "sched_guard tenureMonths st = (ss_balance st > 0 \<and> ss_month st < tenureMonths * 2)"

partial_function (option) sched_loop ::
  "real \<Rightarrow> real \<Rightarrow> real \<Rightarrow> nat \<Rightarrow> sched_state \<Rightarrow> PaymentRecord list option" where
  "sched_loop monthlyEMI monthlyRate monthlyOverpayment tenureMonths st =
     (if sched_guard tenureMonths st
      then sched_loop monthlyEMI monthlyRate monthlyOverpayment tenureMonths
             (sched_step monthlyEMI monthlyRate monthlyOverpayment st)
      else Some (ss_schedule st))"

declare sched_loop.simps [code]

definition generateAmortizationSchedule ::
  "real \<Rightarrow> real \<Rightarrow> nat \<Rightarrow> real \<Rightarrow> PaymentRecord list option" where
  "generateAmortizationSchedule princ annualRate tenureMonths monthlyOverpayment =
     (let monthlyEMI = calculateMonthlyEMI princ annualRate tenureMonths;
          monthlyRate = annualRate / 12 / 100
      in sched_loop monthlyEMI monthlyRate monthlyOverpayment tenureMonths
           \<lparr>ss_balance = princ, ss_month = 0, ss_year = 0, ss_schedule = []\<rparr>)"

subsection \<open>Standard engine: the same code in double precision\<close>

text \<open>
  A JavaScript \<^verbatim>\<open>number\<close> is an IEEE-754 double, and every operation rounds its exact
  result to the nearest double, ties to even. \<open>fl\<close> is that rounding on the reals: the
  exponent of the binade of \<open>x\<close> (at least \<open>-1022\<close>, below which doubles are subnormal)
  fixes the spacing \<open>2\<^sup>e\<^sup>-\<^sup>5\<^sup>2\<close> of the doubles around \<open>x\<close>. Overflow to infinity and NaN are
  not modelled. The fuel of \<open>binade\<close> covers the exponent range of the doubles.
\<close>

definition rne :: "real \<Rightarrow> int" where
  "rne q = (let f = \<lfloor>q\<rfloor>; d = q - of_int f in
     if d < 1 / 2 then f else if 1 / 2 < d then f + 1 else if even f then f else f + 1)"

fun binade :: "nat \<Rightarrow> real \<Rightarrow> int" where
  "binade 0 x = 0"
| "binade (Suc fuel) x =
     (if x < 1 then binade fuel (2 * x) - 1 else if 2 \<le> x then binade fuel (x / 2) + 1 else 0)"

definition pow2 :: "int \<Rightarrow> real" where
  "pow2 e = (if 0 \<le> e then 2 ^ nat e else 1 / 2 ^ nat (- e))"

definition fl :: "real \<Rightarrow> real" where
  "fl x = (if x = 0 then 0 else
     let u = pow2 (max (binade 1100 \<bar>x\<bar>) (- 1022) - 52) in of_int (rne (x / u)) * u)"

text \<open>
  \<^verbatim>\<open>calculateMonthlyEMI\<close> and the loop of \<^verbatim>\<open>generateAmortizationSchedule\<close> with the
  rounding of every operation written out, in the order in which the source evaluates
  them. \<^verbatim>\<open>Math.pow\<close> is taken as the correctly rounded power; for an exponent of 1 it
  returns its argument. Comparisons are exact.
\<close>

definition calculateMonthlyEMI_fl :: "real \<Rightarrow> real \<Rightarrow> nat \<Rightarrow> real" where
  "calculateMonthlyEMI_fl princ annualRate tenureMonths =
     (let monthlyRate = fl (fl (annualRate / 12) / 100) in
      if monthlyRate = 0 then fl (princ / real tenureMonths)
      else
        let numerator = fl (monthlyRate * fl (fl (1 + monthlyRate) ^ tenureMonths));
            denominator = fl (fl (fl (1 + monthlyRate) ^ tenureMonths) - 1)
        in fl (fl (princ * numerator) / denominator))"

definition sched_step_fl :: "real \<Rightarrow> real \<Rightarrow> real \<Rightarrow> sched_state \<Rightarrow> sched_state" where
  "sched_step_fl monthlyEMI monthlyRate monthlyOverpayment st =
     (let bal = ss_balance st;
          interestPayment = fl (bal * monthlyRate);
          principalPayment0 = fl (fl (monthlyEMI - interestPayment) + monthlyOverpayment);
          principalPayment = (if principalPayment0 > bal then bal else principalPayment0);
          totalPayment = fl (interestPayment + principalPayment);
          bal' = fl (bal - principalPayment);
          schedule' = ss_schedule st @
            [\<lparr>month = ss_month st + 1, year = ss_year st, payment = totalPayment,
              principal = principalPayment, interest = interestPayment,
              balance = max 0 bal'\<rparr>];
          mon' = ss_month st + 1
      in if mon' = 12
         then \<lparr>ss_balance = bal', ss_month = 0, ss_year = ss_year st + 1, ss_schedule = schedule'\<rparr>
         else \<lparr>ss_balance = bal', ss_month = mon', ss_year = ss_year st, ss_schedule = schedule'\<rparr>)"

partial_function (option) sched_loop_fl ::
  "real \<Rightarrow> real \<Rightarrow> real \<Rightarrow> nat \<Rightarrow> sched_state \<Rightarrow> PaymentRecord list option" where
  "sched_loop_fl monthlyEMI monthlyRate monthlyOverpayment tenureMonths st =
     (if sched_guard tenureMonths st
      then sched_loop_fl monthlyEMI monthlyRate monthlyOverpayment tenureMonths
             (sched_step_fl monthlyEMI monthlyRate monthlyOverpayment st)
      else Some (ss_schedule st))"

declare sched_loop_fl.simps [code]

definition generateAmortizationSchedule_fl ::
  "real \<Rightarrow> real \<Rightarrow> nat \<Rightarrow> real \<Rightarrow> PaymentRecord list option" where
  "generateAmortizationSchedule_fl princ annualRate tenureMonths monthlyOverpayment =
     (let monthlyEMI = calculateMonthlyEMI_fl princ annualRate tenureMonths;
          monthlyRate = fl (fl (annualRate / 12) / 100)
      in sched_loop_fl monthlyEMI monthlyRate monthlyOverpayment tenureMonths
           \<lparr>ss_balance = princ, ss_month = 0, ss_year = 0, ss_schedule = []\<rparr>)"

subsection \<open>Standard engine: part payment\<close>

record PartPaymentResult =
  originalBalance :: real
  lumpSumAmount :: real
  newBalance :: real
  principalReduction :: real
  originalTenureMonths :: nat
  newTenureMonths :: nat
  tenureSaved :: int
  originalTotalInterest :: real
  newTotalInterest :: real
  interestSaved :: real
  maxAllowedPayment :: real
  isWithinLimit :: bool
  schedule :: "PaymentRecord list"

text \<open>
  \<^verbatim>\<open>calculatePartPaymentImpact\<close>. The early return for a cleared balance comes first;
  the general path calls the schedule generator, whose loop may not return.
\<close>

definition calculatePartPaymentImpact ::
  "real \<Rightarrow> nat \<Rightarrow> real \<Rightarrow> real \<Rightarrow> real \<Rightarrow> PartPaymentResult option" where
  "calculatePartPaymentImpact currentBalance remainingTenureMonths annualRate lumpSum originalLoanAmount =
     (let maxAllowed = originalLoanAmount * (1 / 10);
          withinLimit = (lumpSum \<le> maxAllowed);
          originalEMI = calculateMonthlyEMI currentBalance annualRate remainingTenureMonths;
          origTotalInterest =
            fst (calculateTotalInterestAndAmount currentBalance originalEMI remainingTenureMonths);
          newBal = max 0 (currentBalance - lumpSum)
      in if newBal = 0 then
           Some \<lparr>originalBalance = currentBalance, lumpSumAmount = lumpSum, newBalance = 0,
                 principalReduction = currentBalance,
                 originalTenureMonths = remainingTenureMonths, newTenureMonths = 0,
                 tenureSaved = int remainingTenureMonths,
                 originalTotalInterest = origTotalInterest, newTotalInterest = 0,
                 interestSaved = origTotalInterest, maxAllowedPayment = maxAllowed,
                 isWithinLimit = withinLimit, schedule = []\<rparr>
         else
           (case generateAmortizationSchedule newBal annualRate remainingTenureMonths 0 of
              None \<Rightarrow> None
            | Some sched \<Rightarrow>
                let newTenure = length sched;
                    newInterest = foldl (\<lambda>sum record. sum + interest record) 0 sched;
                    saved = origTotalInterest - newInterest
                in Some \<lparr>originalBalance = currentBalance, lumpSumAmount = lumpSum,
                         newBalance = newBal, principalReduction = lumpSum,
                         originalTenureMonths = remainingTenureMonths, newTenureMonths = newTenure,
                         tenureSaved = int remainingTenureMonths - int newTenure,
                         originalTotalInterest = origTotalInterest, newTotalInterest = newInterest,
                         interestSaved = saved, maxAllowedPayment = maxAllowed,
                         isWithinLimit = withinLimit, schedule = sched\<rparr>))"

subsection \<open>Calendar helper\<close>

text \<open>
  A JavaScript \<^verbatim>\<open>Date\<close> is modelled by its local calendar fields, as read by
  \<^verbatim>\<open>getFullYear\<close>, \<^verbatim>\<open>getMonth\<close> (0 to 11) and \<^verbatim>\<open>getDate\<close>, and the milliseconds since
  local midnight. Time zones and daylight saving are not modelled, so the order of two
  dates by time value is the lexicographic order of these fields.
\<close>

record Date =
  fullYear :: int
  monthIndex :: nat
  dayOfMonth :: nat
  timeOfDay :: nat

definition isLeapYear :: "int \<Rightarrow> bool" where
  "isLeapYear y = ((y mod 4 = 0 \<and> y mod 100 \<noteq> 0) \<or> y mod 400 = 0)"

definition daysInMonth :: "int \<Rightarrow> nat \<Rightarrow> nat" where
  "daysInMonth y m =
     (if m = 1 then (if isLeapYear y then 29 else 28)
      else if m = 3 \<or> m = 5 \<or> m = 8 \<or> m = 10 then 30 else 31)"

text \<open>
  The \<^verbatim>\<open>Date\<close> constructor and \<^verbatim>\<open>setMonth\<close> accept fields that are out of range and
  normalise them: a month index of 12 or more carries into the year, a day beyond the end
  of the month rolls into the following month, and day 0 is the last day of the month
  before.
\<close>

function rollDays :: "int \<Rightarrow> nat \<Rightarrow> nat \<Rightarrow> int \<times> nat \<times> nat" where
  "rollDays y m d =
     (if d > daysInMonth y m
      then (if m \<ge> 11 then rollDays (y + 1) 0 (d - daysInMonth y m)
            else rollDays y (m + 1) (d - daysInMonth y m))
      else (y, m, d))"
  by pat_completeness auto
termination
  by (relation "measure (\<lambda>(y, m, d). d)") (auto simp: daysInMonth_def)

declare rollDays.simps [simp del]

definition makeDate :: "int \<Rightarrow> nat \<Rightarrow> nat \<Rightarrow> nat \<Rightarrow> Date" where
  "makeDate y m d t =
     (let y1 = y + int (m div 12); m1 = m mod 12 in
      if d = 0 then
        (if m1 = 0 then \<lparr>fullYear = y1 - 1, monthIndex = 11, dayOfMonth = 31, timeOfDay = t\<rparr>
         else \<lparr>fullYear = y1, monthIndex = m1 - 1, dayOfMonth = daysInMonth y1 (m1 - 1),
               timeOfDay = t\<rparr>)
      else
        (case rollDays y1 m1 d of
           (y2, m2, d2) \<Rightarrow> \<lparr>fullYear = y2, monthIndex = m2, dayOfMonth = d2, timeOfDay = t\<rparr>))"

definition date_le :: "Date \<Rightarrow> Date \<Rightarrow> bool" where
  "date_le a b =
     (fullYear a < fullYear b \<or>
      (fullYear a = fullYear b \<and>
       (monthIndex a < monthIndex b \<or>
        (monthIndex a = monthIndex b \<and>
         (dayOfMonth a < dayOfMonth b \<or>
          (dayOfMonth a = dayOfMonth b \<and> timeOfDay a \<le> timeOfDay b))))))"

definition isSameMonth :: "Date \<Rightarrow> Date \<Rightarrow> bool" where
  "isSameMonth date1 date2 =
     (fullYear date1 = fullYear date2 \<and> monthIndex date1 = monthIndex date2)"

definition addMonths :: "Date \<Rightarrow> nat \<Rightarrow> Date" where
  "addMonths date months =
     makeDate (fullYear date) (monthIndex date + months) (dayOfMonth date) (timeOfDay date)"

definition getPaymentDate :: "Date \<Rightarrow> nat \<Rightarrow> nat \<Rightarrow> Date" where
  "getPaymentDate startDate monthOffset paymentDay =
     (let date = addMonths startDate monthOffset;
          lastDay = dayOfMonth (makeDate (fullYear date) (monthIndex date + 1) 0 0);
          day = min paymentDay lastDay
      in makeDate (fullYear date) (monthIndex date) day 0)"

subsection \<open>Date-aware advanced engine\<close>

text \<open>
  Optional fields of \<^verbatim>\<open>AdvancedMortgageInput\<close> are \<open>option\<close>s: \<open>None\<close> is
  \<^verbatim>\<open>undefined\<close>. The source tests them by truthiness: a \<^verbatim>\<open>Date\<close> is truthy when it is
  defined, an amount when it is defined and not 0.
\<close>

record AdvancedMortgageInput =
  loanAmount :: real
  annualRate :: real
  tenureMonths :: nat
  emiPaymentDate :: nat
  loanStartDate :: Date
  hasFixedRatePeriod :: bool
  fixedRateMonths :: "nat option"
  fixedRate :: "real option"
  variableRate :: "real option"
  fixedRateEndDate :: "Date option"
  hasLumpSum :: bool
  lumpSumAmount :: "real option"
  lumpSumDate :: "Date option"
  hasExtraPayments :: bool
  extraPaymentAmount :: "real option"
  extraPaymentStartDate :: "Date option"
  extraPaymentEndDate :: "Date option"

record PaymentDetail =
  date :: Date
  monthNumber :: nat
  principalPayment :: real
  interestPayment :: real
  totalPayment :: real
  balance :: real
  isLumpSumMonth :: bool
  isExtraPaymentMonth :: bool
  interestRate :: real

record AdvancedCalculationResult =
  schedule :: "PaymentDetail list"
  originalTenureMonths :: nat
  newTenureMonths :: nat
  tenureSaved :: int
  originalTotalInterest :: real
  newTotalInterest :: real
  interestSaved :: real
  interestSavedPercentage :: real
  totalLumpSum :: real
  totalExtraPayments :: real
  originalMonthlyEMI :: real
  newMonthlyEMI :: real

definition getMonthlyRate :: "real \<Rightarrow> real" where
  "getMonthlyRate rate = rate / 100 / 12"

definition calculateEMI :: "real \<Rightarrow> real \<Rightarrow> nat \<Rightarrow> real" where
  "calculateEMI princ monthlyRate months =
     (if monthlyRate = 0 then princ / real months
      else (princ * monthlyRate * (1 + monthlyRate) ^ months) /
           ((1 + monthlyRate) ^ months - 1))"

text \<open>The rate in effect on a payment date (the first block of the loop body).\<close>

definition currentRateOn :: "AdvancedMortgageInput \<Rightarrow> Date \<Rightarrow> real" where
  "currentRateOn input paymentDate =
     (case (hasFixedRatePeriod input, fixedRateEndDate input) of
        (True, Some endDate) \<Rightarrow>
          (case (date_le paymentDate endDate, fixedRate input) of
             (True, Some fixed) \<Rightarrow> fixed
           | _ \<Rightarrow> (case variableRate input of
                     Some variable \<Rightarrow> variable
                   | None \<Rightarrow> AdvancedMortgageInput.annualRate input))
      | _ \<Rightarrow> AdvancedMortgageInput.annualRate input)"

text \<open>
  The extra payment that applies on a payment date, if any: the guard of the block
  ``check for extra monthly payments''.
\<close>

definition extraPaymentOn :: "AdvancedMortgageInput \<Rightarrow> Date \<Rightarrow> real option" where
  "extraPaymentOn input paymentDate =
     (case (hasExtraPayments input, extraPaymentStartDate input, extraPaymentEndDate input,
            extraPaymentAmount input) of
        (True, Some startDate, Some endDate, Some amount) \<Rightarrow>
          if amount \<noteq> 0 \<and> date_le startDate paymentDate \<and> date_le paymentDate endDate
          then Some amount else None
      | _ \<Rightarrow> None)"

text \<open>The lump sum that applies on a payment date, if any.\<close>

definition lumpSumOn :: "AdvancedMortgageInput \<Rightarrow> Date \<Rightarrow> real option" where
  "lumpSumOn input paymentDate =
     (case (hasLumpSum input, lumpSumDate input, AdvancedMortgageInput.lumpSumAmount input) of
        (True, Some lumpDate, Some amount) \<Rightarrow>
          if amount \<noteq> 0 \<and> isSameMonth paymentDate lumpDate then Some amount else None
      | _ \<Rightarrow> None)"

text \<open>The loop variables of \<^verbatim>\<open>calculateAdvancedMortgage\<close>.\<close>

record adv_state =
  st_balance :: real
  st_totalInterestPaid :: real
  st_totalLumpSum :: real
  st_totalExtraPayments :: real
  st_month :: nat
  st_schedule :: "PaymentDetail list"

definition adv_step :: "AdvancedMortgageInput \<Rightarrow> real \<Rightarrow> adv_state \<Rightarrow> adv_state" where
  "adv_step input originalEMI st =
     (let bal = st_balance st;
          paymentDate = getPaymentDate (loanStartDate input) (st_month st) (emiPaymentDate input);
          currentRate = currentRateOn input paymentDate;
          currentMonthlyRate = getMonthlyRate currentRate;
          interestPmt = bal * currentMonthlyRate;
          principal0 = originalEMI - interestPmt;
          total0 = originalEMI;
          extra = extraPaymentOn input paymentDate;
          principal1 = (case extra of Some amount \<Rightarrow> principal0 + amount | None \<Rightarrow> principal0);
          total1 = (case extra of Some amount \<Rightarrow> total0 + amount | None \<Rightarrow> total0);
          lump = lumpSumOn input paymentDate;
          principal2 = (case lump of Some amount \<Rightarrow> principal1 + amount | None \<Rightarrow> principal1);
          total2 = (case lump of Some amount \<Rightarrow> total1 + amount | None \<Rightarrow> total1);
          principal3 = (if principal2 > bal then bal else principal2);
          total3 = (if principal2 > bal then bal + interestPmt else total2);
          bal' = bal - principal3
      in \<lparr>st_balance = bal',
          st_totalInterestPaid = st_totalInterestPaid st + interestPmt,
          st_totalLumpSum =
            (case lump of Some amount \<Rightarrow> st_totalLumpSum st + amount | None \<Rightarrow> st_totalLumpSum st),
          st_totalExtraPayments =
            (case extra of Some amount \<Rightarrow> st_totalExtraPayments st + amount
             | None \<Rightarrow> st_totalExtraPayments st),
          st_month = st_month st + 1,
          st_schedule = st_schedule st @
            [\<lparr>date = paymentDate, monthNumber = st_month st + 1,
              principalPayment = principal3, interestPayment = interestPmt,
              totalPayment = total3, balance = max 0 bal',
              isLumpSumMonth = (lump \<noteq> None), isExtraPaymentMonth = (extra \<noteq> None),
              interestRate = currentRate\<rparr>]\<rparr>)"

definition adv_guard :: "AdvancedMortgageInput \<Rightarrow> adv_state \<Rightarrow> bool" where
  "adv_guard input st = (st_balance st > 0 \<and> st_month st < tenureMonths input * 2)"

text \<open>
  The loop, with the \<^verbatim>\<open>break\<close> of its ``safety check'' after \<^verbatim>\<open>month++\<close>. The month
  counter rises by one in every pass and the guard bounds it, so the loop is total.
\<close>

function adv_loop :: "AdvancedMortgageInput \<Rightarrow> real \<Rightarrow> adv_state \<Rightarrow> adv_state" where
  "adv_loop input originalEMI st =
     (if adv_guard input st then
        (if st_month (adv_step input originalEMI st) > tenureMonths input * 2
         then adv_step input originalEMI st
         else adv_loop input originalEMI (adv_step input originalEMI st))
      else st)"
  by pat_completeness auto
termination
  by (relation "measure (\<lambda>(input, originalEMI, st). tenureMonths input * 2 - st_month st)")
     (auto simp: adv_guard_def adv_step_def Let_def)

declare adv_loop.simps [simp del]

text \<open>The values of the loop variables before the loop.\<close>

definition adv_init :: "AdvancedMortgageInput \<Rightarrow> adv_state" where
  "adv_init input =
     \<lparr>st_balance = loanAmount input, st_totalInterestPaid = 0, st_totalLumpSum = 0,
      st_totalExtraPayments = 0, st_month = 0, st_schedule = []\<rparr>"

definition calculateAdvancedMortgage :: "AdvancedMortgageInput \<Rightarrow> AdvancedCalculationResult" where
  "calculateAdvancedMortgage input =
     (let monthlyRate = getMonthlyRate (AdvancedMortgageInput.annualRate input);
          originalEMI = calculateEMI (loanAmount input) monthlyRate (tenureMonths input);
          final = adv_loop input originalEMI (adv_init input);
          sched = st_schedule final;
          newTenure = length sched;
          saved = int (tenureMonths input) - int newTenure;
          origInterest = (originalEMI * real (tenureMonths input)) - loanAmount input;
          newInterest = st_totalInterestPaid final;
          intSaved = origInterest - newInterest;
          intSavedPct = (intSaved / origInterest) * 100
      in \<lparr>schedule = sched, originalTenureMonths = tenureMonths input,
          newTenureMonths = newTenure, tenureSaved = saved,
          originalTotalInterest = origInterest, newTotalInterest = newInterest,
          interestSaved = intSaved, interestSavedPercentage = intSavedPct,
          totalLumpSum = st_totalLumpSum final,
          totalExtraPayments = st_totalExtraPayments final,
          originalMonthlyEMI = originalEMI, newMonthlyEMI = originalEMI\<rparr>)"

subsection \<open>Example inputs\<close>

text \<open>
  A loan of 1000 at rate 0 over 10 months from 10 January 2024, with a lump sum of 5000
  in the first month.
\<close>

definition input_large_lump :: AdvancedMortgageInput where
  "input_large_lump =
     \<lparr>loanAmount = 1000, annualRate = 0, tenureMonths = 10, emiPaymentDate = 10,
      loanStartDate = \<lparr>fullYear = 2024, monthIndex = 0, dayOfMonth = 10, timeOfDay = 0\<rparr>,
      hasFixedRatePeriod = False, fixedRateMonths = None, fixedRate = None,
      variableRate = None, fixedRateEndDate = None,
      hasLumpSum = True, lumpSumAmount = Some 5000,
      lumpSumDate = Some \<lparr>fullYear = 2024, monthIndex = 0, dayOfMonth = 20, timeOfDay = 0\<rparr>,
      hasExtraPayments = False, extraPaymentAmount = None, extraPaymentStartDate = None,
      extraPaymentEndDate = None\<rparr>"

text \<open>
  A loan of 1000 at rate 0 over 10 months from 10 January 2024, with an extra payment of
  5000 in every period from 1 to 28 February 2024.
\<close>

definition input_large_extra :: AdvancedMortgageInput where
  "input_large_extra =
     \<lparr>loanAmount = 1000, annualRate = 0, tenureMonths = 10, emiPaymentDate = 10,
      loanStartDate = \<lparr>fullYear = 2024, monthIndex = 0, dayOfMonth = 10, timeOfDay = 0\<rparr>,
      hasFixedRatePeriod = False, fixedRateMonths = None, fixedRate = None,
      variableRate = None, fixedRateEndDate = None,
      hasLumpSum = False, lumpSumAmount = None, lumpSumDate = None,
      hasExtraPayments = True, extraPaymentAmount = Some 5000,
      extraPaymentStartDate =
        Some \<lparr>fullYear = 2024, monthIndex = 1, dayOfMonth = 1, timeOfDay = 0\<rparr>,
      extraPaymentEndDate =
        Some \<lparr>fullYear = 2024, monthIndex = 1, dayOfMonth = 28, timeOfDay = 0\<rparr>\<rparr>"

text \<open>
  A loan of 1200 over 3 months from 10 January 2024 with base rate 0, a fixed rate of 12
  until 15 February 2024 and a variable rate of 24 afterwards.
\<close>

definition input_fixed_variable :: AdvancedMortgageInput where
  "input_fixed_variable =
     \<lparr>loanAmount = 1200, annualRate = 0, tenureMonths = 3, emiPaymentDate = 10,
      loanStartDate = \<lparr>fullYear = 2024, monthIndex = 0, dayOfMonth = 10, timeOfDay = 0\<rparr>,
      hasFixedRatePeriod = True, fixedRateMonths = Some 1, fixedRate = Some 12,
      variableRate = Some 24,
      fixedRateEndDate = Some \<lparr>fullYear = 2024, monthIndex = 1, dayOfMonth = 15, timeOfDay = 0\<rparr>,
      hasLumpSum = False, lumpSumAmount = None, lumpSumDate = None,
      hasExtraPayments = False, extraPaymentAmount = None, extraPaymentStartDate = None,
      extraPaymentEndDate = None\<rparr>"

text \<open>
  A loan of 360000 at rate 0 over 360 months that starts on 29 February 2024, with a lump
  sum of 173000 dated 15 March 2025.
\<close>

definition input_leap_start :: AdvancedMortgageInput where
  "input_leap_start =
     \<lparr>loanAmount = 360000, annualRate = 0, tenureMonths = 360, emiPaymentDate = 29,
      loanStartDate = \<lparr>fullYear = 2024, monthIndex = 1, dayOfMonth = 29, timeOfDay = 0\<rparr>,
      hasFixedRatePeriod = False, fixedRateMonths = None, fixedRate = None,
      variableRate = None, fixedRateEndDate = None,
      hasLumpSum = True, lumpSumAmount = Some 173000,
      lumpSumDate = Some \<lparr>fullYear = 2025, monthIndex = 2, dayOfMonth = 15, timeOfDay = 0\<rparr>,
      hasExtraPayments = False, extraPaymentAmount = None, extraPaymentStartDate = None,
      extraPaymentEndDate = None\<rparr>"

subsection \<open>Notions used to state the properties\<close>

text \<open>An optional amount read as a number: an absent amount contributes nothing.\<close>

definition amountOf :: "real option \<Rightarrow> real" where
  "amountOf x = (case x of Some a \<Rightarrow> a | None \<Rightarrow> 0)"

text \<open>
  What one pass of the advanced loop records in period \<open>i\<close> (counted from 0) when the
  balance entering the period is \<open>b\<close> and the instalment is \<open>emi\<close>.
\<close>

definition period_ok ::
  "AdvancedMortgageInput \<Rightarrow> real \<Rightarrow> real \<Rightarrow> nat \<Rightarrow> PaymentDetail \<Rightarrow> bool" where
  "period_ok input emi b i d =
     (date d = getPaymentDate (loanStartDate input) i (emiPaymentDate input) \<and>
      monthNumber d = i + 1 \<and>
      interestRate d = currentRateOn input (date d) \<and>
      interestPayment d = b * getMonthlyRate (interestRate d) \<and>
      isExtraPaymentMonth d = (extraPaymentOn input (date d) \<noteq> None) \<and>
      isLumpSumMonth d = (lumpSumOn input (date d) \<noteq> None) \<and>
      principalPayment d =
        min b (emi - interestPayment d + amountOf (extraPaymentOn input (date d))
                 + amountOf (lumpSumOn input (date d))) \<and>
      PaymentDetail.balance d = b - principalPayment d)"

text \<open>
  The invariant of the advanced loop: the schedule has one record for every month counted,
  each record is the one its period prescribes for the balance left by the record before
  it, the running balance is the balance of the last record, and the running totals are
  the sums over the records.
\<close>

definition adv_inv :: "AdvancedMortgageInput \<Rightarrow> real \<Rightarrow> adv_state \<Rightarrow> bool" where
  "adv_inv input emi st =
     (length (st_schedule st) = st_month st \<and>
      st_month st \<le> tenureMonths input * 2 \<and>
      st_balance st =
        (if st_schedule st = [] then loanAmount input
         else PaymentDetail.balance (last (st_schedule st))) \<and>
      (\<forall>i<length (st_schedule st).
         period_ok input emi
           (if i = 0 then loanAmount input else PaymentDetail.balance (st_schedule st ! (i - 1)))
           i (st_schedule st ! i)) \<and>
      st_totalLumpSum st = (\<Sum>d\<leftarrow>st_schedule st. amountOf (lumpSumOn input (date d))) \<and>
      st_totalExtraPayments st =
        (\<Sum>d\<leftarrow>st_schedule st. amountOf (extraPaymentOn input (date d))) \<and>
      st_totalInterestPaid st = (\<Sum>d\<leftarrow>st_schedule st. interestPayment d))"

text \<open>The invariant of the standard loop, for a starting principal \<open>P\<close>.\<close>

definition sched_inv :: "real \<Rightarrow> sched_state \<Rightarrow> bool" where
  "sched_inv P st =
     (ss_balance st =
        (if ss_schedule st = [] then P else PaymentRecord.balance (last (ss_schedule st))) \<and>
      (\<forall>i<length (ss_schedule st).
         0 \<le> PaymentRecord.balance (ss_schedule st ! i) \<and>
         principal (ss_schedule st ! i) \<le>
           (if i = 0 then P else PaymentRecord.balance (ss_schedule st ! (i - 1)))))"

section \<open>The standard loop and its iterates\<close>

text \<open>
  The loop returns the schedule of the first iterate of its body at which the guard fails,
  and returns only then.
\<close>

lemma sched_loop_unroll:
  "(\<forall>j<k. sched_guard n ((sched_step e r ov ^^ j) st)) \<Longrightarrow>
   \<not> sched_guard n ((sched_step e r ov ^^ k) st) \<Longrightarrow>
   sched_loop e r ov n st = Some (ss_schedule ((sched_step e r ov ^^ k) st))"
proof (induction k arbitrary: st)
  case 0
  then show ?case by (subst sched_loop.simps) simp
next
  case (Suc k)
  have g: "sched_guard n st" using Suc.prems(1) by (auto dest: spec[of _ 0])
  have "\<forall>j<k. sched_guard n ((sched_step e r ov ^^ j) (sched_step e r ov st))"
  proof (intro allI impI)
    fix j assume "j < k"
    then have "sched_guard n ((sched_step e r ov ^^ Suc j) st)" using Suc.prems(1) by blast
    then show "sched_guard n ((sched_step e r ov ^^ j) (sched_step e r ov st))"
      by (simp add: funpow_swap1)
  qed
  moreover have "\<not> sched_guard n ((sched_step e r ov ^^ k) (sched_step e r ov st))"
    using Suc.prems(2) by (simp add: funpow_swap1)
  ultimately have "sched_loop e r ov n (sched_step e r ov st) =
      Some (ss_schedule ((sched_step e r ov ^^ k) (sched_step e r ov st)))"
    by (rule Suc.IH)
  then show ?case using g by (subst sched_loop.simps) (simp add: funpow_swap1)
qed

lemma sched_loop_Some_iter:
  assumes "sched_loop e r ov n st = Some res"
  shows "\<exists>k. (\<forall>j<k. sched_guard n ((sched_step e r ov ^^ j) st)) \<and>
             \<not> sched_guard n ((sched_step e r ov ^^ k) st) \<and>
             res = ss_schedule ((sched_step e r ov ^^ k) st)"
proof (rule sched_loop.raw_induct
    [where P = "\<lambda>e r ov n st res. \<exists>k. (\<forall>j<k. sched_guard n ((sched_step e r ov ^^ j) st)) \<and>
             \<not> sched_guard n ((sched_step e r ov ^^ k) st) \<and>
             res = ss_schedule ((sched_step e r ov ^^ k) st)", OF _ assms])
  fix loop :: "real \<Rightarrow> real \<Rightarrow> real \<Rightarrow> nat \<Rightarrow> sched_state \<Rightarrow> PaymentRecord list option"
  fix e r ov n st res
  assume IH: "\<And>e r ov n st res. loop e r ov n st = Some res \<Longrightarrow>
     \<exists>k. (\<forall>j<k. sched_guard n ((sched_step e r ov ^^ j) st)) \<and>
             \<not> sched_guard n ((sched_step e r ov ^^ k) st) \<and>
             res = ss_schedule ((sched_step e r ov ^^ k) st)"
  assume eq: "(if sched_guard n st then loop e r ov n (sched_step e r ov st)
       else Some (ss_schedule st)) = Some res"
  show "\<exists>k. (\<forall>j<k. sched_guard n ((sched_step e r ov ^^ j) st)) \<and>
             \<not> sched_guard n ((sched_step e r ov ^^ k) st) \<and>
             res = ss_schedule ((sched_step e r ov ^^ k) st)"
  proof (cases "sched_guard n st")
    case False
    with eq have "res = ss_schedule st" by simp
    with False show ?thesis by (intro exI[of _ 0]) simp
  next
    case True
    with eq have "loop e r ov n (sched_step e r ov st) = Some res" by simp
    from IH[OF this] obtain k where
      k1: "\<forall>j<k. sched_guard n ((sched_step e r ov ^^ j) (sched_step e r ov st))" and
      k2: "\<not> sched_guard n ((sched_step e r ov ^^ k) (sched_step e r ov st))" and
      k3: "res = ss_schedule ((sched_step e r ov ^^ k) (sched_step e r ov st))" by blast
    have "\<forall>j<Suc k. sched_guard n ((sched_step e r ov ^^ j) st)"
    proof (intro allI impI)
      fix j assume j: "j < Suc k"
      show "sched_guard n ((sched_step e r ov ^^ j) st)"
      proof (cases j)
        case 0 then show ?thesis using True by simp
      next
        case (Suc i)
        then have "i < k" using j by simp
        with k1 have "sched_guard n ((sched_step e r ov ^^ i) (sched_step e r ov st))" by blast
        then show ?thesis using Suc by (simp add: funpow_swap1)
      qed
    qed
    with k2 k3 show ?thesis by (intro exI[of _ "Suc k"]) (simp add: funpow_swap1)
  qed
qed

text \<open>
  Every pass appends one record, whose balance is not negative and whose principal
  component is at most the balance that entered the pass.
\<close>

lemma sched_step_schedule:
  "0 < ss_balance st \<Longrightarrow>
   \<exists>rec. ss_schedule (sched_step e r ov st) = ss_schedule st @ [rec] \<and>
         ss_balance (sched_step e r ov st) = PaymentRecord.balance rec \<and>
         0 \<le> PaymentRecord.balance rec \<and> principal rec \<le> ss_balance st"
  by (auto simp: sched_step_def Let_def max_def)

lemma sched_inv_step:
  assumes inv: "sched_inv P st" and pos: "0 < ss_balance st"
  shows "sched_inv P (sched_step e r ov st)"
proof -
  let ?s = "ss_schedule st"
  from sched_step_schedule[OF pos, of e r ov] obtain rec where
    sch: "ss_schedule (sched_step e r ov st) = ?s @ [rec]" and
    bal: "ss_balance (sched_step e r ov st) = PaymentRecord.balance rec" and
    nn: "0 \<le> PaymentRecord.balance rec" and le: "principal rec \<le> ss_balance st"
    by blast
  from inv have enter: "ss_balance st = (if ?s = [] then P else PaymentRecord.balance (last ?s))"
    and recs: "\<forall>i<length ?s. 0 \<le> PaymentRecord.balance (?s ! i) \<and>
         principal (?s ! i) \<le> (if i = 0 then P else PaymentRecord.balance (?s ! (i - 1)))"
    by (simp_all add: sched_inv_def)
  have recs': "0 \<le> PaymentRecord.balance ((?s @ [rec]) ! i) \<and>
         principal ((?s @ [rec]) ! i) \<le>
           (if i = 0 then P else PaymentRecord.balance ((?s @ [rec]) ! (i - 1)))"
    if i: "i < length (?s @ [rec])" for i
  proof (cases "i < length ?s")
    case True
    then show ?thesis using recs by (auto simp: nth_append)
  next
    case False
    with i have il: "i = length ?s" by simp
    have "(if i = 0 then P else PaymentRecord.balance ((?s @ [rec]) ! (i - 1))) = ss_balance st"
    proof (cases "?s = []")
      case True then show ?thesis using il enter by simp
    next
      case False
      then have "(?s @ [rec]) ! (i - 1) = last ?s" using il by (simp add: nth_append last_conv_nth)
      then show ?thesis using False il enter by simp
    qed
    moreover have "(?s @ [rec]) ! i = rec" using il by simp
    ultimately show ?thesis using nn le by (simp only:)
  qed
  show ?thesis
    unfolding sched_inv_def
  proof (intro conjI)
    show "ss_balance (sched_step e r ov st) =
        (if ss_schedule (sched_step e r ov st) = [] then P
         else PaymentRecord.balance (last (ss_schedule (sched_step e r ov st))))"
      using sch bal by simp
    show "\<forall>i<length (ss_schedule (sched_step e r ov st)).
         0 \<le> PaymentRecord.balance (ss_schedule (sched_step e r ov st) ! i) \<and>
         principal (ss_schedule (sched_step e r ov st) ! i) \<le>
           (if i = 0 then P
            else PaymentRecord.balance (ss_schedule (sched_step e r ov st) ! (i - 1)))"
      unfolding sch using recs' by blast
  qed
qed

lemma sched_inv_iter:
  "sched_inv P st \<Longrightarrow> \<forall>j<k. sched_guard n ((sched_step e r ov ^^ j) st) \<Longrightarrow>
   sched_inv P ((sched_step e r ov ^^ k) st)"
proof (induction k)
  case 0
  then show ?case by simp
next
  case (Suc k)
  then have "sched_inv P ((sched_step e r ov ^^ k) st)" by simp
  moreover have "sched_guard n ((sched_step e r ov ^^ k) st)" using Suc.prems(2) by blast
  ultimately show ?case by (simp add: sched_inv_step sched_guard_def)
qed

lemma sched_inv_result:
  assumes "generateAmortizationSchedule P r n ov = Some s"
  shows "\<forall>i<length s. 0 \<le> PaymentRecord.balance (s ! i) \<and>
           principal (s ! i) \<le> (if i = 0 then P else PaymentRecord.balance (s ! (i - 1)))"
proof -
  define st0 where "st0 = \<lparr>ss_balance = P, ss_month = 0, ss_year = 0, ss_schedule = []\<rparr>"
  define e where "e = calculateMonthlyEMI P r n"
  define mr where "mr = r / 12 / 100"
  from assms have "sched_loop e mr ov n st0 = Some s"
    by (simp add: generateAmortizationSchedule_def Let_def st0_def e_def mr_def)
  from sched_loop_Some_iter[OF this] obtain k where
    g: "\<forall>j<k. sched_guard n ((sched_step e mr ov ^^ j) st0)" and
    s: "s = ss_schedule ((sched_step e mr ov ^^ k) st0)" by blast
  have "sched_inv P st0" by (simp add: sched_inv_def st0_def)
  from sched_inv_iter[OF this g] show ?thesis unfolding sched_inv_def s by blast
qed

text \<open>
  The balance and the counters along the iterates. The balance after a pass is
  \<open>max 0 (b (1 + r) - EMI - overpayment)\<close>; it falls with a larger overpayment, and by at
  least a fixed amount in every pass when the payment exceeds the interest on the principal.
\<close>

lemma sched_step_balance:
  "ss_balance (sched_step e r ov st) = max 0 (ss_balance st * (1 + r) - e - ov)"
  by (simp add: sched_step_def Let_def max_def algebra_simps)

lemma sched_step_month:
  "ss_month (sched_step e r ov st) = (if ss_month st + 1 = 12 then 0 else ss_month st + 1)"
  by (simp add: sched_step_def Let_def)

lemma sched_step_length:
  "length (ss_schedule (sched_step e r ov st)) = length (ss_schedule st) + 1"
  by (simp add: sched_step_def Let_def)

lemma sched_iter_length:
  "length (ss_schedule ((sched_step e r ov ^^ k) st)) = length (ss_schedule st) + k"
  by (induction k) (simp_all add: sched_step_length)

lemma sched_iter_month:
  "ss_month st = 0 \<Longrightarrow> ss_month ((sched_step e r ov ^^ k) st) = k mod 12"
proof (induction k)
  case 0
  then show ?case by simp
next
  case (Suc k)
  then have "ss_month ((sched_step e r ov ^^ k) st) = k mod 12" by simp
  then show ?case by (simp add: sched_step_month mod_Suc)
qed






text \<open>
  Without overpayment and in exact arithmetic the balance follows the closed form
  \<open>P (q\<^sup>n - q\<^sup>k) / (q\<^sup>n - 1)\<close> with \<open>q = 1 + r\<close>: it is positive before period \<open>n\<close> and
  exactly 0 after it, so the schedule has exactly \<open>n\<close> records.
\<close>

lemma exact_balance_closed_form:
  assumes P: "0 < P" and m: "0 < m" and n: "0 < n"
    and e: "e = P * (m * (1 + m) ^ n) / ((1 + m) ^ n - 1)"
    and st: "ss_balance st = P"
  shows "k \<le> n \<Longrightarrow>
     ss_balance ((sched_step e m 0 ^^ k) st) = P * ((1 + m) ^ n - (1 + m) ^ k) / ((1 + m) ^ n - 1)"
proof (induction k)
  case 0
  have "1 < (1 + m) ^ n" using m n by (simp add: one_less_power)
  then show ?case using st by simp
next
  case (Suc k)
  define Q where "Q = (1 + m) ^ n"
  define X where "X = (1 + m) ^ k"
  define D where "D = Q - 1"
  have D: "0 < D" unfolding D_def Q_def using m n by (simp add: one_less_power)
  have ih: "ss_balance ((sched_step e m 0 ^^ k) st) = P * (Q - X) / D"
    using Suc by (simp add: Q_def X_def D_def)
  have le: "X * (1 + m) \<le> Q"
  proof -
    have "(1 + m) ^ Suc k \<le> (1 + m) ^ n"
      using m Suc.prems by (intro power_increasing) simp_all
    then show ?thesis by (simp add: Q_def X_def mult.commute)
  qed
  have "P * (Q - X) / D * (1 + m) - P * (m * Q) / D = P * (Q - X * (1 + m)) / D"
    using D by (simp add: field_simps)
  moreover have "0 \<le> P * (Q - X * (1 + m)) / D"
    using P D le by simp
  moreover have "e = P * (m * Q) / D" by (simp add: e Q_def D_def)
  ultimately have "max 0 (P * (Q - X) / D * (1 + m) - e - 0) = P * (Q - X * (1 + m)) / D"
    by simp
  then have "ss_balance ((sched_step e m 0 ^^ Suc k) st) = P * (Q - X * (1 + m)) / D"
    by (simp add: sched_step_balance ih)
  then show ?case by (simp add: Q_def X_def D_def mult.commute)
qed

lemma exact_schedule_full_tenure:
  assumes P: "0 < P" and r: "0 < r" and n: "0 < n"
  shows "\<exists>s. generateAmortizationSchedule P r n 0 = Some s \<and> length s = n \<and>
             PaymentRecord.balance (last s) = 0"
proof -
  define m where "m = r / 12 / 100"
  define e where "e = calculateMonthlyEMI P r n"
  define st0 where "st0 = \<lparr>ss_balance = P, ss_month = 0, ss_year = 0, ss_schedule = []\<rparr>"
  have m: "0 < m" using r by (simp add: m_def)
  have e: "e = P * (m * (1 + m) ^ n) / ((1 + m) ^ n - 1)"
    using m by (simp add: e_def calculateMonthlyEMI_def m_def Let_def)
  have b0: "ss_balance st0 = P" by (simp add: st0_def)
  have Q1: "1 < (1 + m) ^ n" using m n by (simp add: one_less_power)
  have bal: "ss_balance ((sched_step e m 0 ^^ k) st0) =
      P * ((1 + m) ^ n - (1 + m) ^ k) / ((1 + m) ^ n - 1)" if "k \<le> n" for k
    using exact_balance_closed_form[OF P m n e b0 that] .
  have run: "\<forall>j<n. sched_guard n ((sched_step e m 0 ^^ j) st0)"
  proof (intro allI impI)
    fix j assume j: "j < n"
    have "(1 + m) ^ j < (1 + m) ^ n" using m j by (intro power_strict_increasing) simp_all
    then have "0 < ss_balance ((sched_step e m 0 ^^ j) st0)"
      using bal[of j] j P Q1 by simp
    moreover have "ss_month ((sched_step e m 0 ^^ j) st0) = j mod 12"
      by (simp add: sched_iter_month st0_def)
    moreover have "j mod 12 < n * 2" using j by (simp add: le_less_trans[OF mod_less_eq_dividend])
    ultimately show "sched_guard n ((sched_step e m 0 ^^ j) st0)"
      by (simp add: sched_guard_def)
  qed
  have stop: "\<not> sched_guard n ((sched_step e m 0 ^^ n) st0)"
    using bal[of n] by (simp add: sched_guard_def)
  have res: "generateAmortizationSchedule P r n 0 = Some (ss_schedule ((sched_step e m 0 ^^ n) st0))"
    using sched_loop_unroll[OF run stop]
    by (simp add: generateAmortizationSchedule_def Let_def e_def m_def st0_def)
  have len: "length (ss_schedule ((sched_step e m 0 ^^ n) st0)) = n"
    by (simp add: sched_iter_length st0_def)
  have "sched_inv P st0" by (simp add: sched_inv_def st0_def)
  from sched_inv_iter[OF this run]
  have "ss_balance ((sched_step e m 0 ^^ n) st0) =
      PaymentRecord.balance (last (ss_schedule ((sched_step e m 0 ^^ n) st0)))"
    using len n by (auto simp: sched_inv_def)
  then have "PaymentRecord.balance (last (ss_schedule ((sched_step e m 0 ^^ n) st0))) = 0"
    using bal[of n] by simp
  with res len show ?thesis by blast
qed

section \<open>Evaluating the double-precision loop\<close>

text \<open>
  \<open>binade\<close> steps through a fuel given as a numeral, and one pass of the rounded loop body
  is determined by its five rounded intermediate values.
\<close>

lemma binade_numeral:
  "binade (numeral k) x =
     (if x < 1 then binade (pred_numeral k) (2 * x) - 1
      else if 2 \<le> x then binade (pred_numeral k) (x / 2) + 1 else 0)"
  by (simp add: numeral_eq_Suc)

lemmas fl_eval = fl_def rne_def pow2_def Let_def binade_numeral

lemma sched_step_fl_values:
  assumes "fl (ss_balance st * r) = i"
    and "fl (fl (e - i) + ov) = p0"
    and "(if p0 > ss_balance st then ss_balance st else p0) = pp"
    and "fl (i + pp) = t"
    and "fl (ss_balance st - pp) = b'"
    and "ss_month st + 1 \<noteq> 12"
  shows "sched_step_fl e r ov st =
     \<lparr>ss_balance = b', ss_month = ss_month st + 1, ss_year = ss_year st,
      ss_schedule = ss_schedule st @
        [\<lparr>month = ss_month st + 1, year = ss_year st, payment = t, principal = pp,
          interest = i, balance = max 0 b'\<rparr>]\<rparr>"
  unfolding sched_step_fl_def Let_def assms(1) assms(2) assms(3) assms(4) assms(5)
  using assms(6) by simp

section \<open>The calendar helper\<close>

text \<open>
  When the day of the start date exists in every month (1 to 28), nothing rolls over: the
  payment date is in the start month advanced by \<open>k\<close> months, on the preferred day clamped
  to the length of that month.
\<close>

lemma rollDays_in_range: "d \<le> daysInMonth y m \<Longrightarrow> rollDays y m d = (y, m, d)"
  by (simp add: rollDays.simps)

lemma getPaymentDate_regular:
  assumes "1 \<le> dayOfMonth startDate" and "dayOfMonth startDate \<le> 28" and "1 \<le> paymentDay"
  shows "getPaymentDate startDate k paymentDay =
     \<lparr>fullYear = fullYear startDate + int ((monthIndex startDate + k) div 12),
      monthIndex = (monthIndex startDate + k) mod 12,
      dayOfMonth = min paymentDay
        (daysInMonth (fullYear startDate + int ((monthIndex startDate + k) div 12))
           ((monthIndex startDate + k) mod 12)),
      timeOfDay = 0\<rparr>"
proof -
  define y where "y = fullYear startDate + int ((monthIndex startDate + k) div 12)"
  define mi where "mi = (monthIndex startDate + k) mod 12"
  have mi: "mi < 12" by (simp add: mi_def)
  have dim: "28 \<le> daysInMonth y mi" by (simp add: daysInMonth_def)
  have a: "addMonths startDate k =
      \<lparr>fullYear = y, monthIndex = mi, dayOfMonth = dayOfMonth startDate, timeOfDay = timeOfDay startDate\<rparr>"
    using assms(1,2) dim
    by (simp add: addMonths_def makeDate_def Let_def rollDays_in_range y_def mi_def)
  have l: "dayOfMonth (makeDate y (Suc mi) 0 0) = daysInMonth y mi"
  proof (cases "mi = 11")
    case True
    then show ?thesis by (simp add: makeDate_def Let_def daysInMonth_def)
  next
    case False
    then have "Suc mi < 12" using mi by simp
    then show ?thesis by (simp add: makeDate_def Let_def)
  qed
  define dd where "dd = min paymentDay (daysInMonth y mi)"
  have d: "dd \<noteq> 0" "dd \<le> daysInMonth y mi"
    using assms(3) dim by (simp_all add: dd_def)
  have "makeDate y mi dd 0 = \<lparr>fullYear = y, monthIndex = mi, dayOfMonth = dd, timeOfDay = 0\<rparr>"
    using d mi by (simp add: makeDate_def Let_def rollDays_in_range)
  then show ?thesis
    by (simp add: getPaymentDate_def Let_def a l y_def[symmetric] mi_def[symmetric] dd_def)
qed

section \<open>The advanced loop\<close>

text \<open>
  The \<^verbatim>\<open>break\<close> after \<^verbatim>\<open>month++\<close> never fires, because the guard has just checked
  \<open>month < 2 \<times> tenureMonths\<close>; the loop is a plain while loop over \<open>adv_step\<close>.
\<close>

lemma adv_step_month: "st_month (adv_step input e st) = st_month st + 1"
  by (simp add: adv_step_def Let_def)

lemma adv_loop_step:
  "adv_guard input st \<Longrightarrow> adv_loop input e st = adv_loop input e (adv_step input e st)"
  by (subst adv_loop.simps) (simp add: adv_guard_def adv_step_month)

lemma adv_loop_stop: "\<not> adv_guard input st \<Longrightarrow> adv_loop input e st = st"
  by (subst adv_loop.simps) simp

lemma adv_loop_invariant_aux:
  "I st \<Longrightarrow> (\<forall>s. I s \<and> adv_guard input s \<longrightarrow> I (adv_step input e s)) \<Longrightarrow>
   I (adv_loop input e st) \<and> \<not> adv_guard input (adv_loop input e st)"
proof (induction input e st rule: adv_loop.induct)
  case (1 input e st)
  show ?case
  proof (cases "adv_guard input st")
    case False
    then show ?thesis using "1.prems"(1) by (simp add: adv_loop_stop)
  next
    case True
    have m: "\<not> tenureMonths input * 2 < st_month (adv_step input e st)"
      using True by (simp add: adv_guard_def adv_step_month)
    have "I (adv_step input e st)" using "1.prems" True by blast
    then have "I (adv_loop input e (adv_step input e st)) \<and>
        \<not> adv_guard input (adv_loop input e (adv_step input e st))"
      using "1.IH" True m "1.prems"(2) by blast
    then show ?thesis using True by (simp add: adv_loop_step)
  qed
qed

lemma adv_loop_invariant:
  assumes "I st" and "\<And>s. I s \<Longrightarrow> adv_guard input s \<Longrightarrow> I (adv_step input e s)"
  shows "I (adv_loop input e st)"
  using adv_loop_invariant_aux [of I st input e] assms by blast

lemma adv_loop_exit: "\<not> adv_guard input (adv_loop input e st)"
  using adv_loop_invariant_aux [of "\<lambda>s. True" st input e] by blast

lemma adv_step_schedule:
  "0 < st_balance st \<Longrightarrow>
   \<exists>d. st_schedule (adv_step input e st) = st_schedule st @ [d] \<and>
       period_ok input e (st_balance st) (st_month st) d \<and>
       st_balance (adv_step input e st) = PaymentDetail.balance d \<and>
       st_totalLumpSum (adv_step input e st) = st_totalLumpSum st + amountOf (lumpSumOn input (date d)) \<and>
       st_totalExtraPayments (adv_step input e st) =
         st_totalExtraPayments st + amountOf (extraPaymentOn input (date d)) \<and>
       st_totalInterestPaid (adv_step input e st) = st_totalInterestPaid st + interestPayment d"
  by (auto simp: adv_step_def Let_def period_ok_def amountOf_def min_def max_def split: option.splits)

text \<open>The invariant holds before the loop and every pass keeps it.\<close>

lemma adv_inv_init:
  "adv_inv input e (adv_init input)"
  by (simp add: adv_inv_def adv_init_def)

lemma adv_inv_step:
  assumes inv: "adv_inv input e st" and g: "adv_guard input st"
  shows "adv_inv input e (adv_step input e st)"
proof -
  let ?s = "st_schedule st"
  from g have pos: "0 < st_balance st" and lt: "st_month st < tenureMonths input * 2"
    by (simp_all add: adv_guard_def)
  from adv_step_schedule[OF pos, of input e] obtain d where
    sch: "st_schedule (adv_step input e st) = ?s @ [d]" and
    ok: "period_ok input e (st_balance st) (st_month st) d" and
    bal: "st_balance (adv_step input e st) = PaymentDetail.balance d" and
    tl: "st_totalLumpSum (adv_step input e st) = st_totalLumpSum st + amountOf (lumpSumOn input (date d))" and
    te: "st_totalExtraPayments (adv_step input e st) =
         st_totalExtraPayments st + amountOf (extraPaymentOn input (date d))" and
    ti: "st_totalInterestPaid (adv_step input e st) = st_totalInterestPaid st + interestPayment d"
    by blast
  from inv have len: "length ?s = st_month st"
    and enter: "st_balance st = (if ?s = [] then loanAmount input else PaymentDetail.balance (last ?s))"
    and recs: "\<forall>i<length ?s. period_ok input e
           (if i = 0 then loanAmount input else PaymentDetail.balance (?s ! (i - 1))) i (?s ! i)"
    and sl: "st_totalLumpSum st = (\<Sum>d\<leftarrow>?s. amountOf (lumpSumOn input (date d)))"
    and se: "st_totalExtraPayments st = (\<Sum>d\<leftarrow>?s. amountOf (extraPaymentOn input (date d)))"
    and si: "st_totalInterestPaid st = (\<Sum>d\<leftarrow>?s. interestPayment d)"
    by (simp_all add: adv_inv_def)
  have recs': "period_ok input e
           (if i = 0 then loanAmount input else PaymentDetail.balance ((?s @ [d]) ! (i - 1))) i ((?s @ [d]) ! i)"
    if i: "i < length (?s @ [d])" for i
  proof (cases "i < length ?s")
    case True
    then show ?thesis using recs by (auto simp: nth_append)
  next
    case False
    with i have il: "i = length ?s" by simp
    have "(if i = 0 then loanAmount input else PaymentDetail.balance ((?s @ [d]) ! (i - 1))) = st_balance st"
    proof (cases "?s = []")
      case True then show ?thesis using il enter by simp
    next
      case False
      then have "(?s @ [d]) ! (i - 1) = last ?s" using il by (simp add: nth_append last_conv_nth)
      then show ?thesis using False il enter by simp
    qed
    moreover have "(?s @ [d]) ! i = d" using il by simp
    moreover have "i = st_month st" using il len by simp
    ultimately show ?thesis using ok by (simp only:)
  qed
  show ?thesis
    unfolding adv_inv_def
  proof (intro conjI)
    show "length (st_schedule (adv_step input e st)) = st_month (adv_step input e st)"
      using sch len by (simp add: adv_step_month)
    show "st_month (adv_step input e st) \<le> tenureMonths input * 2"
      using lt by (simp add: adv_step_month)
    show "st_balance (adv_step input e st) =
        (if st_schedule (adv_step input e st) = [] then loanAmount input
         else PaymentDetail.balance (last (st_schedule (adv_step input e st))))"
      using sch bal by simp
    show "\<forall>i<length (st_schedule (adv_step input e st)).
         period_ok input e
           (if i = 0 then loanAmount input
            else PaymentDetail.balance (st_schedule (adv_step input e st) ! (i - 1)))
           i (st_schedule (adv_step input e st) ! i)"
      unfolding sch using recs' by blast
    show "st_totalLumpSum (adv_step input e st) =
        (\<Sum>d\<leftarrow>st_schedule (adv_step input e st). amountOf (lumpSumOn input (date d)))"
      using sch tl sl by simp
    show "st_totalExtraPayments (adv_step input e st) =
        (\<Sum>d\<leftarrow>st_schedule (adv_step input e st). amountOf (extraPaymentOn input (date d)))"
      using sch te se by simp
    show "st_totalInterestPaid (adv_step input e st) =
        (\<Sum>d\<leftarrow>st_schedule (adv_step input e st). interestPayment d)"
      using sch ti si by simp
  qed
qed

lemma adv_inv_final:
  "adv_inv input e (adv_loop input e (adv_init input))"
  by (rule adv_loop_invariant[where I = "adv_inv input e"]) (simp_all add: adv_inv_init adv_inv_step)

text \<open>The result of \<^verbatim>\<open>calculateAdvancedMortgage\<close> read off the final loop state.\<close>

lemma adv_result_inv:
  "adv_inv input (originalMonthlyEMI (calculateAdvancedMortgage input))
     (adv_loop input (originalMonthlyEMI (calculateAdvancedMortgage input)) (adv_init input))"
  by (rule adv_inv_final)

lemma adv_result_fields:
  "schedule (calculateAdvancedMortgage input) =
     st_schedule (adv_loop input (originalMonthlyEMI (calculateAdvancedMortgage input)) (adv_init input))"
  "totalLumpSum (calculateAdvancedMortgage input) =
     st_totalLumpSum (adv_loop input (originalMonthlyEMI (calculateAdvancedMortgage input)) (adv_init input))"
  "totalExtraPayments (calculateAdvancedMortgage input) =
     st_totalExtraPayments (adv_loop input (originalMonthlyEMI (calculateAdvancedMortgage input)) (adv_init input))"
  "newTotalInterest (calculateAdvancedMortgage input) =
     st_totalInterestPaid (adv_loop input (originalMonthlyEMI (calculateAdvancedMortgage input)) (adv_init input))"
  "originalMonthlyEMI (calculateAdvancedMortgage input) =
     calculateEMI (loanAmount input) (getMonthlyRate (AdvancedMortgageInput.annualRate input)) (tenureMonths input)"
  "newMonthlyEMI (calculateAdvancedMortgage input) = originalMonthlyEMI (calculateAdvancedMortgage input)"
  by (simp_all add: calculateAdvancedMortgage_def Let_def)

lemma adv_schedule_periods:
  assumes "i < length (schedule (calculateAdvancedMortgage input))"
  shows "period_ok input (originalMonthlyEMI (calculateAdvancedMortgage input))
           (if i = 0 then loanAmount input
            else PaymentDetail.balance (schedule (calculateAdvancedMortgage input) ! (i - 1)))
           i (schedule (calculateAdvancedMortgage input) ! i)"
  using adv_result_inv[of input] assms unfolding adv_inv_def adv_result_fields(1) by blast

lemma adv_schedule_length_cap:
  "length (schedule (calculateAdvancedMortgage input)) \<le> 2 * tenureMonths input"
  using adv_result_inv[of input] unfolding adv_inv_def adv_result_fields(1) by simp

text \<open>
  A record is flagged exactly when its amount was added, and the totals add the whole
  configured amount for every flagged record.
\<close>

lemma lumpSumOn_Some: "lumpSumOn input x = Some a \<Longrightarrow> AdvancedMortgageInput.lumpSumAmount input = Some a"
  by (auto simp: lumpSumOn_def split: bool.splits option.splits if_splits)

lemma extraPaymentOn_Some: "extraPaymentOn input x = Some a \<Longrightarrow> extraPaymentAmount input = Some a"
  by (auto simp: extraPaymentOn_def split: bool.splits option.splits if_splits)

lemma sum_flagged:
  "\<forall>d\<in>set ds. (\<forall>a. f d = Some a \<longrightarrow> cfg = Some a) \<and> flag d = (f d \<noteq> None) \<Longrightarrow>
   (\<Sum>d\<leftarrow>ds. amountOf (f d)) = amountOf cfg * real (length (filter flag ds))"
proof (induction ds)
  case Nil
  then show ?case by simp
next
  case (Cons d ds)
  then have ih: "(\<Sum>d\<leftarrow>ds. amountOf (f d)) = amountOf cfg * real (length (filter flag ds))"
    by simp
  show ?case
  proof (cases "f d")
    case None
    then have "\<not> flag d" using Cons.prems by simp
    then show ?thesis using None ih by (simp add: amountOf_def)
  next
    case (Some a)
    then have "flag d" and "cfg = Some a" using Cons.prems by simp_all
    then show ?thesis using Some ih by (simp add: amountOf_def algebra_simps)
  qed
qed

lemma adv_schedule_flags:
  assumes "d \<in> set (schedule (calculateAdvancedMortgage input))"
  shows "isLumpSumMonth d = (lumpSumOn input (date d) \<noteq> None) \<and>
         isExtraPaymentMonth d = (extraPaymentOn input (date d) \<noteq> None) \<and>
         interestRate d = currentRateOn input (date d)"
proof -
  from assms obtain i where i: "i < length (schedule (calculateAdvancedMortgage input))"
    and d: "d = schedule (calculateAdvancedMortgage input) ! i"
    by (auto simp: in_set_conv_nth)
  from adv_schedule_periods[OF i] show ?thesis unfolding d period_ok_def by blast
qed

lemma adv_totals:
  "totalLumpSum (calculateAdvancedMortgage input) =
     amountOf (AdvancedMortgageInput.lumpSumAmount input) *
       real (length (filter isLumpSumMonth (schedule (calculateAdvancedMortgage input))))"
  "totalExtraPayments (calculateAdvancedMortgage input) =
     amountOf (extraPaymentAmount input) *
       real (length (filter isExtraPaymentMonth (schedule (calculateAdvancedMortgage input))))"
proof -
  let ?res = "calculateAdvancedMortgage input"
  have "totalLumpSum ?res = (\<Sum>d\<leftarrow>schedule ?res. amountOf (lumpSumOn input (date d)))"
    using adv_result_inv[of input] unfolding adv_inv_def adv_result_fields(1,2) by blast
  also have "\<dots> = amountOf (AdvancedMortgageInput.lumpSumAmount input) *
       real (length (filter isLumpSumMonth (schedule ?res)))"
    by (rule sum_flagged) (auto dest: lumpSumOn_Some simp: adv_schedule_flags)
  finally show "totalLumpSum ?res = amountOf (AdvancedMortgageInput.lumpSumAmount input) *
       real (length (filter isLumpSumMonth (schedule ?res)))" .
  have "totalExtraPayments ?res = (\<Sum>d\<leftarrow>schedule ?res. amountOf (extraPaymentOn input (date d)))"
    using adv_result_inv[of input] unfolding adv_inv_def adv_result_fields(1,3) by blast
  also have "\<dots> = amountOf (extraPaymentAmount input) *
       real (length (filter isExtraPaymentMonth (schedule ?res)))"
    by (rule sum_flagged) (auto dest: extraPaymentOn_Some simp: adv_schedule_flags)
  finally show "totalExtraPayments ?res = amountOf (extraPaymentAmount input) *
       real (length (filter isExtraPaymentMonth (schedule ?res)))" .
qed

text \<open>A positive loan over a positive tenure gets at least one record.\<close>

lemma adv_schedule_nonempty:
  assumes "0 < loanAmount input" and "0 < tenureMonths input"
  shows "0 < length (schedule (calculateAdvancedMortgage input))"
proof -
  let ?e = "originalMonthlyEMI (calculateAdvancedMortgage input)"
  have g: "adv_guard input (adv_init input)"
    using assms by (simp add: adv_guard_def adv_init_def)
  have "0 < st_month (adv_loop input ?e (adv_step input ?e (adv_init input)))"
    by (rule adv_loop_invariant[where I = "\<lambda>s. 0 < st_month s"]) (simp_all add: adv_step_month)
  then have "0 < st_month (adv_loop input ?e (adv_init input))"
    using g by (simp add: adv_loop_step)
  then show ?thesis
    using adv_result_inv[of input] unfolding adv_inv_def adv_result_fields(1) by simp
qed

text \<open>
  The rate chosen by the loop body when every field of the fixed-rate block is present, or
  when there is no fixed-rate period.
\<close>

lemma currentRateOn_configured:
  assumes "hasFixedRatePeriod input \<longrightarrow>
       fixedRate input = Some fixed \<and> variableRate input = Some variable \<and>
       fixedRateEndDate input = Some endDate"
  shows "currentRateOn input D =
     (if hasFixedRatePeriod input then (if date_le D endDate then fixed else variable)
      else AdvancedMortgageInput.annualRate input)"
  using assms by (auto simp: currentRateOn_def)

text \<open>What one pass does to the balance, to the lump-sum total and to the flags.\<close>

lemma adv_step_projections:
  assumes "D = getPaymentDate (loanStartDate input) (st_month st) (emiPaymentDate input)"
  shows "st_balance (adv_step input e st) =
           st_balance st -
             min (st_balance st)
               (e - st_balance st * getMonthlyRate (currentRateOn input D)
                  + amountOf (extraPaymentOn input D) + amountOf (lumpSumOn input D))"
    and "st_totalLumpSum (adv_step input e st) = st_totalLumpSum st + amountOf (lumpSumOn input D)"
    and "map isLumpSumMonth (st_schedule (adv_step input e st)) =
           map isLumpSumMonth (st_schedule st) @ [lumpSumOn input D \<noteq> None]"
  unfolding assms
  by (auto simp: adv_step_def Let_def amountOf_def min_def split: option.splits)

text \<open>The equations that evaluate the advanced engine on a concrete input.\<close>

lemmas adv_eval = adv_loop.simps adv_guard_def adv_init_def
     adv_step_def getPaymentDate_def addMonths_def makeDate_def rollDays.simps daysInMonth_def isLeapYear_def Let_def
   currentRateOn_def extraPaymentOn_def lumpSumOn_def isSameMonth_def date_le_def getMonthlyRate_def calculateEMI_def

text \<open>
  When the day of the start date exists in every month, the payment dates of different
  periods lie in different calendar months, so at most one record is flagged as the
  lump-sum month.
\<close>

lemma filter_at_most_one:
  "(\<forall>i<length xs. \<forall>j<length xs. P (xs ! i) \<and> P (xs ! j) \<longrightarrow> i = j) \<Longrightarrow>
   length (filter P xs) \<le> 1"
proof (induction xs)
  case Nil
  then show ?case by simp
next
  case (Cons x xs)
  have tl: "\<forall>i<length xs. \<forall>j<length xs. P (xs ! i) \<and> P (xs ! j) \<longrightarrow> i = j"
  proof (intro allI impI)
    fix i j assume "i < length xs" "j < length xs" "P (xs ! i) \<and> P (xs ! j)"
    then have "Suc i = Suc j" using Cons.prems[rule_format, of "Suc i" "Suc j"] by simp
    then show "i = j" by simp
  qed
  show ?case
  proof (cases "P x")
    case False
    then show ?thesis using Cons.IH[OF tl] by simp
  next
    case True
    have "\<not> P (xs ! i)" if "i < length xs" for i
    proof
      assume "P (xs ! i)"
      then have "(0::nat) = Suc i"
        using Cons.prems[rule_format, of 0 "Suc i"] True that by simp
      then show False by simp
    qed
    then have "filter P xs = []" by (auto simp: filter_empty_conv in_set_conv_nth)
    then show ?thesis using True by simp
  qed
qed

lemma lump_sum_flagged_at_most_once:
  assumes "1 \<le> dayOfMonth (loanStartDate input)" and "dayOfMonth (loanStartDate input) \<le> 28"
    and "1 \<le> emiPaymentDate input"
  shows "length (filter isLumpSumMonth (schedule (calculateAdvancedMortgage input))) \<le> 1"
proof (rule filter_at_most_one, intro allI impI)
  let ?s = "schedule (calculateAdvancedMortgage input)"
  let ?m0 = "monthIndex (loanStartDate input)"
  fix i j assume i: "i < length ?s" and j: "j < length ?s"
    and flag: "isLumpSumMonth (?s ! i) \<and> isLumpSumMonth (?s ! j)"
  have date: "date (?s ! k) = getPaymentDate (loanStartDate input) k (emiPaymentDate input)"
    and flg: "isLumpSumMonth (?s ! k) = (lumpSumOn input (date (?s ! k)) \<noteq> None)"
    if "k < length ?s" for k
    using adv_schedule_periods[OF that] by (simp_all add: period_ok_def)
  obtain L where L: "isSameMonth (date (?s ! i)) L" "isSameMonth (date (?s ! j)) L"
    using flag flg[OF i] flg[OF j]
    by (auto simp: lumpSumOn_def split: bool.splits option.splits if_splits)
  have y: "fullYear (date (?s ! k)) = fullYear (loanStartDate input) + int ((?m0 + k) div 12)"
    and m: "monthIndex (date (?s ! k)) = (?m0 + k) mod 12" if "k < length ?s" for k
    using date[OF that] getPaymentDate_regular[OF assms, of k] by simp_all
  from L have "int ((?m0 + i) div 12) = int ((?m0 + j) div 12)" and "(?m0 + i) mod 12 = (?m0 + j) mod 12"
    using y[OF i] y[OF j] m[OF i] m[OF j] by (simp_all add: isSameMonth_def)
  then have "?m0 + i = ?m0 + j"
    by (metis div_mult_mod_eq of_nat_eq_iff)
  then show "i = j" by simp
qed

section \<open>Properties\<close>

text \<open>
  C4. For every principal \<open>P \<ge> 0\<close> and tenure \<open>n > 0\<close>, the EMI calculator called with
  annual rate 0 returns exactly \<open>P / n\<close>: both \<^verbatim>\<open>calculateMonthlyEMI\<close> of the standard
  engine and \<^verbatim>\<open>calculateEMI\<close> of the date-aware engine, which takes the monthly rate.
\<close>

theorem calculateMonthlyEMI_zero_rate:
  "0 \<le> P \<Longrightarrow> 0 < n \<Longrightarrow>
   calculateMonthlyEMI P 0 n = P / real n \<and> calculateEMI P (getMonthlyRate 0) n = P / real n"
  by (simp add: calculateMonthlyEMI_def calculateEMI_def getMonthlyRate_def)

theorem calculateMonthlyEMI_zero_rate_witness:
  "(0::real) \<le> 100000 \<and> (0::nat) < 120 \<and>
   calculateMonthlyEMI 100000 0 120 = 100000 / real (120::nat) \<and>
   calculateEMI 100000 (getMonthlyRate 0) 120 = 100000 / real (120::nat)"
  using calculateMonthlyEMI_zero_rate [of 100000 120] by simp

subsection \<open>Length and final balance of the plain schedule\<close>

text \<open>
  The double-precision values of the EMI, of the monthly rate and of the two passes of
  the loop for a principal of 1000 at rate 2 over 1 month.
\<close>

lemma emi_fl_1000_2_1: "calculateMonthlyEMI_fl 1000 2 1 = 8810753177244809 / 8796093022208"
  by (simp add: calculateMonthlyEMI_fl_def fl_eval)

lemma rate_fl_2: "fl (fl (2 / 12) / 100) = 3843071682022823 / 2305843009213693952"
  by (simp add: fl_eval)

lemma step_fl_1:
  "sched_step_fl (8810753177244809 / 8796093022208) (3843071682022823 / 2305843009213693952) 0
     \<lparr>ss_balance = 1000, ss_month = 0, ss_year = 0, ss_schedule = []\<rparr> =
   \<lparr>ss_balance = 51 / 2199023255552, ss_month = 1, ss_year = 0,
    ss_schedule = [\<lparr>month = 1, year = 0, payment = 8810753177244809 / 8796093022208,
      principal = 2199023255551949 / 2199023255552,
      interest = 3752999689475413 / 2251799813685248,
      balance = 51 / 2199023255552\<rparr>]\<rparr>"
  by (subst sched_step_fl_values
        [where i = "3752999689475413 / 2251799813685248"
           and ?p0.0 = "2199023255551949 / 2199023255552"
           and pp = "2199023255551949 / 2199023255552"
           and t = "8810753177244809 / 8796093022208"
           and b' = "51 / 2199023255552"])
     (simp_all add: fl_eval)

lemma step_fl_2:
  "sched_step_fl (8810753177244809 / 8796093022208) (3843071682022823 / 2305843009213693952) 0
     \<lparr>ss_balance = 51 / 2199023255552, ss_month = 1, ss_year = 0, ss_schedule = s\<rparr> =
   \<lparr>ss_balance = 0, ss_month = 2, ss_year = 0,
    ss_schedule = s @ [\<lparr>month = 2, year = 0,
      payment = 7189574592631931 / 309485009821345068724781056,
      principal = 51 / 2199023255552,
      interest = 3062447746611937 / 79228162514264337593543950336,
      balance = 0\<rparr>]\<rparr>"
  by (subst sched_step_fl_values
        [where i = "3062447746611937 / 79228162514264337593543950336"
           and ?p0.0 = "8810753177244809 / 8796093022208"
           and pp = "51 / 2199023255552"
           and t = "7189574592631931 / 309485009821345068724781056"
           and b' = 0])
     (simp_all add: fl_eval)

text \<open>
  C1. For every \<open>P > 0\<close>, \<open>r > 0\<close> and \<open>n > 0\<close> the schedule generated without overpayment
  has at most \<open>n\<close> records and a final balance below 1. In exact arithmetic it has
  exactly \<open>n\<close> records and a final balance of 0 (\<open>exact_schedule_full_tenure\<close>). In
  double precision it can have one record more: for a principal of 1000 at rate 2 over
  1 month the sum \<open>1 + r\<close> is rounded, the EMI comes out \<open>51 / 2\<^sup>4\<^sup>1\<close> short of principal
  plus interest, the balance after the only scheduled payment is \<open>51 / 2\<^sup>4\<^sup>1 > 0\<close>, and the
  loop appends a second record that pays this residue.
\<close>

theorem double_precision_extra_record:
  "map_option (map (\<lambda>rec. (principal rec, PaymentRecord.balance rec)))
     (generateAmortizationSchedule_fl 1000 2 1 0) =
   Some [(2199023255551949 / 2199023255552, 51 / 2199023255552), (51 / 2199023255552, 0)]"
proof -
  let ?e = "8810753177244809 / 8796093022208 :: real"
  let ?r = "3843071682022823 / 2305843009213693952 :: real"
  let ?r1 = "\<lparr>month = 1, year = 0, payment = 8810753177244809 / 8796093022208,
      principal = 2199023255551949 / 2199023255552,
      interest = 3752999689475413 / 2251799813685248,
      balance = 51 / 2199023255552\<rparr>"
  let ?r2 = "\<lparr>month = 2, year = 0,
      payment = 7189574592631931 / 309485009821345068724781056,
      principal = 51 / 2199023255552,
      interest = 3062447746611937 / 79228162514264337593543950336,
      balance = 0\<rparr>"
  have "sched_loop_fl ?e ?r 0 1 \<lparr>ss_balance = 0, ss_month = 2, ss_year = 0, ss_schedule = [?r1, ?r2]\<rparr>
      = Some [?r1, ?r2]"
    by (subst sched_loop_fl.simps) (simp add: sched_guard_def)
  then have "sched_loop_fl ?e ?r 0 1
      \<lparr>ss_balance = 51 / 2199023255552, ss_month = 1, ss_year = 0, ss_schedule = [?r1]\<rparr>
      = Some [?r1, ?r2]"
    by (subst sched_loop_fl.simps) (simp add: sched_guard_def step_fl_2 del: One_nat_def)
  then have "sched_loop_fl ?e ?r 0 1 \<lparr>ss_balance = 1000, ss_month = 0, ss_year = 0, ss_schedule = []\<rparr>
      = Some [?r1, ?r2]"
    by (subst sched_loop_fl.simps) (simp add: sched_guard_def step_fl_1 del: One_nat_def)
  then show ?thesis
    unfolding generateAmortizationSchedule_fl_def Let_def emi_fl_1000_2_1 rate_fl_2 by simp
qed

subsection \<open>The iteration cap of the standard generator\<close>

text \<open>
  With a zero rate, an EMI of 100 and an overpayment of \<open>-100\<close> the principal component of
  every period is 0: the balance never moves, and the month counter never leaves 0 to 11.
\<close>

lemma stuck_step:
  "ss_balance st = 1200 \<Longrightarrow> ss_month st < 12 \<Longrightarrow>
   ss_balance (sched_step 100 0 (-100) st) = 1200 \<and> ss_month (sched_step 100 0 (-100) st) < 12"
  by (simp add: sched_step_def Let_def)

lemma stuck_iter:
  "ss_balance st = 1200 \<Longrightarrow> ss_month st < 12 \<Longrightarrow>
   ss_balance ((sched_step 100 0 (-100) ^^ k) st) = 1200 \<and>
   ss_month ((sched_step 100 0 (-100) ^^ k) st) < 12"
  by (induction k) (simp_all add: stuck_step)

text \<open>
  C2. The month-by-month simulation terminates with at most \<open>2 \<times> tenureMonths\<close> records.
  The standard generator does not: its guard compares \<open>2 \<times> tenureMonths\<close> with the counter
  that the body resets to 0 at every twelfth pass, so for a tenure of 6 months or more
  the cap is never reached. For a principal of 1200 at rate 0 over 12 months, an
  overpayment of \<open>-100\<close> makes the loop run forever, and an overpayment of \<open>-60\<close> gives
  30 records, more than the 24 the cap allows.
\<close>

theorem generateAmortizationSchedule_cap_never_triggers:
  "generateAmortizationSchedule 1200 0 12 (-100) = None \<and>
   map_option length (generateAmortizationSchedule 1200 0 12 (-60)) = Some 30"
proof
  show "generateAmortizationSchedule 1200 0 12 (-100) = None"
  proof (cases "generateAmortizationSchedule 1200 0 12 (-100)")
    case None then show ?thesis .
  next
    case (Some res)
    define st0 where "st0 = \<lparr>ss_balance = 1200, ss_month = 0, ss_year = 0, ss_schedule = []\<rparr>"
    from Some have "sched_loop 100 0 (-100) 12 st0 = Some res"
      by (simp add: generateAmortizationSchedule_def calculateMonthlyEMI_def st0_def)
    from sched_loop_Some_iter[OF this] obtain k where
      "\<not> sched_guard 12 ((sched_step 100 0 (-100) ^^ k) st0)" by blast
    moreover have "ss_balance ((sched_step 100 0 (-100) ^^ k) st0) = 1200 \<and>
        ss_month ((sched_step 100 0 (-100) ^^ k) st0) < 12"
      by (rule stuck_iter) (simp_all add: st0_def)
    ultimately show ?thesis by (simp add: sched_guard_def)
  qed
  show "map_option length (generateAmortizationSchedule 1200 0 12 (-60)) = Some 30"
    by (simp add: generateAmortizationSchedule_def calculateMonthlyEMI_def sched_loop.simps
        sched_guard_def sched_step_def Let_def)
qed

subsection \<open>Part payment\<close>

text \<open>
  C6. When the lump sum is at least the current balance, the result is the degenerate one
  (new balance, new tenure and new total interest 0, interest saved equal to the original
  total interest, empty schedule); the schedule generator is not consulted.
\<close>

theorem calculatePartPaymentImpact_full_payment:
  "currentBalance \<le> lumpSum \<Longrightarrow>
   \<exists>res. calculatePartPaymentImpact currentBalance remainingTenure rate lumpSum originalLoan = Some res \<and>
     newBalance res = 0 \<and> PartPaymentResult.newTenureMonths res = 0 \<and>
     PartPaymentResult.newTotalInterest res = 0 \<and>
     PartPaymentResult.interestSaved res = PartPaymentResult.originalTotalInterest res \<and>
     PartPaymentResult.schedule res = []"
  by (simp add: calculatePartPaymentImpact_def Let_def max_def)

theorem calculatePartPaymentImpact_full_payment_witness:
  "(100000::real) \<le> 100000 \<and>
   (\<exists>res. calculatePartPaymentImpact 100000 120 5 100000 100000 = Some res \<and>
     newBalance res = 0 \<and> PartPaymentResult.newTenureMonths res = 0 \<and>
     PartPaymentResult.newTotalInterest res = 0 \<and>
     PartPaymentResult.interestSaved res = PartPaymentResult.originalTotalInterest res \<and>
     PartPaymentResult.schedule res = [])"
  using calculatePartPaymentImpact_full_payment [of 100000 100000 120 5 100000] by simp

subsection \<open>Payment dates\<close>

text \<open>
  C9. The payment date lies in the month of the start date advanced by \<open>k\<close> months, on
  the preferred day clamped to the end of that month. It does not when the start day does
  not exist in the target month: \<^verbatim>\<open>addMonths\<close> rolls 31 January 2024 plus one month
  over to 2 March, and the payment date for offset 1 and preferred day 31 is 31 March 2024,
  not 29 February 2024.
\<close>

theorem getPaymentDate_skips_month:
  "getPaymentDate \<lparr>fullYear = 2024, monthIndex = 0, dayOfMonth = 31, timeOfDay = 0\<rparr> 1 31
     = \<lparr>fullYear = 2024, monthIndex = 2, dayOfMonth = 31, timeOfDay = 0\<rparr>"
  by (simp add: getPaymentDate_def addMonths_def makeDate_def rollDays.simps daysInMonth_def
      isLeapYear_def Let_def)

subsection \<open>Balance and principal component\<close>

text \<open>
  C3. In every record of the standard schedule generator and of the date-aware engine the
  balance is at least 0, and the principal component is at most the balance entering the
  period: the principal for the first record, the balance of the record before for every
  other one.
\<close>

theorem balance_and_principal_clamped:
  "(\<forall>s. generateAmortizationSchedule P r n ov = Some s \<longrightarrow>
      (\<forall>i<length s. 0 \<le> PaymentRecord.balance (s ! i) \<and>
           principal (s ! i) \<le> (if i = 0 then P else PaymentRecord.balance (s ! (i - 1))))) \<and>
   (\<forall>i<length (schedule (calculateAdvancedMortgage input)).
      0 \<le> PaymentDetail.balance (schedule (calculateAdvancedMortgage input) ! i) \<and>
      principalPayment (schedule (calculateAdvancedMortgage input) ! i) \<le>
        (if i = 0 then loanAmount input
         else PaymentDetail.balance (schedule (calculateAdvancedMortgage input) ! (i - 1))))"
proof (rule conjI)
  show "\<forall>s. generateAmortizationSchedule P r n ov = Some s \<longrightarrow>
      (\<forall>i<length s. 0 \<le> PaymentRecord.balance (s ! i) \<and>
           principal (s ! i) \<le> (if i = 0 then P else PaymentRecord.balance (s ! (i - 1))))"
    using sched_inv_result by blast
  show "\<forall>i<length (schedule (calculateAdvancedMortgage input)).
      0 \<le> PaymentDetail.balance (schedule (calculateAdvancedMortgage input) ! i) \<and>
      principalPayment (schedule (calculateAdvancedMortgage input) ! i) \<le>
        (if i = 0 then loanAmount input
         else PaymentDetail.balance (schedule (calculateAdvancedMortgage input) ! (i - 1)))"
  proof (intro allI impI)
    fix i assume "i < length (schedule (calculateAdvancedMortgage input))"
    from adv_schedule_periods[OF this]
    show "0 \<le> PaymentDetail.balance (schedule (calculateAdvancedMortgage input) ! i) \<and>
      principalPayment (schedule (calculateAdvancedMortgage input) ! i) \<le>
        (if i = 0 then loanAmount input
         else PaymentDetail.balance (schedule (calculateAdvancedMortgage input) ! (i - 1)))"
      by (simp add: period_ok_def)
  qed
qed

theorem balance_and_principal_clamped_witness:
  "\<exists>s. generateAmortizationSchedule 1200 0 2 0 = Some s \<and> length s = 2 \<and>
       0 \<le> PaymentRecord.balance (s ! 1) \<and> principal (s ! 1) \<le> PaymentRecord.balance (s ! 0) \<and>
       0 < length (schedule (calculateAdvancedMortgage input_large_lump)) \<and>
       principalPayment (schedule (calculateAdvancedMortgage input_large_lump) ! 0) \<le>
         loanAmount input_large_lump"
proof -
  have "map_option length (generateAmortizationSchedule 1200 0 2 0) = Some 2"
    by (simp add: generateAmortizationSchedule_def calculateMonthlyEMI_def sched_loop.simps
        sched_guard_def sched_step_def Let_def)
  then obtain s where s: "generateAmortizationSchedule 1200 0 2 0 = Some s" and len: "length s = 2"
    by auto
  have ne: "0 < length (schedule (calculateAdvancedMortgage input_large_lump))"
    by (rule adv_schedule_nonempty) (simp_all add: input_large_lump_def)
  from balance_and_principal_clamped[of 1200 0 2 0 input_large_lump] s
  have a: "\<forall>i<length s. 0 \<le> PaymentRecord.balance (s ! i) \<and>
           principal (s ! i) \<le> (if i = 0 then 1200 else PaymentRecord.balance (s ! (i - 1)))"
    and b: "\<forall>i<length (schedule (calculateAdvancedMortgage input_large_lump)).
      0 \<le> PaymentDetail.balance (schedule (calculateAdvancedMortgage input_large_lump) ! i) \<and>
      principalPayment (schedule (calculateAdvancedMortgage input_large_lump) ! i) \<le>
        (if i = 0 then loanAmount input_large_lump
         else PaymentDetail.balance (schedule (calculateAdvancedMortgage input_large_lump) ! (i - 1)))"
    by blast+
  from a len have "0 \<le> PaymentRecord.balance (s ! 1) \<and> principal (s ! 1) \<le> PaymentRecord.balance (s ! 0)"
    by (auto dest!: spec[of _ 1])
  moreover from b ne have "principalPayment (schedule (calculateAdvancedMortgage input_large_lump) ! 0) \<le>
         loanAmount input_large_lump"
    by (auto dest!: spec[of _ 0])
  ultimately show ?thesis using s len ne by blast
qed

subsection \<open>Rate selection and the constant EMI\<close>

text \<open>
  C7. In every period of the date-aware engine the rate in effect is the fixed rate when a
  fixed-rate period is configured and the payment date of the period is on or before its
  end date, the variable rate after that date, and the base rate when no fixed-rate period
  is configured. The interest of the period is the entering balance at that rate, and the
  principal component is computed from the original EMI, the one of the base rate, which
  is also reported as the new EMI. A configured fixed-rate period is one whose fixed rate,
  variable rate and end date are all present.
\<close>

theorem effective_rate_and_constant_emi:
  assumes "hasFixedRatePeriod input \<longrightarrow>
       fixedRate input = Some fixed \<and> variableRate input = Some variable \<and>
       fixedRateEndDate input = Some endDate"
  shows "(let res = calculateAdvancedMortgage input; sched = schedule res in
     newMonthlyEMI res = originalMonthlyEMI res \<and>
     originalMonthlyEMI res =
       calculateEMI (loanAmount input) (getMonthlyRate (AdvancedMortgageInput.annualRate input))
         (tenureMonths input) \<and>
     (\<forall>i<length sched.
        date (sched ! i) = getPaymentDate (loanStartDate input) i (emiPaymentDate input) \<and>
        interestRate (sched ! i) =
          (if hasFixedRatePeriod input
           then (if date_le (date (sched ! i)) endDate then fixed else variable)
           else AdvancedMortgageInput.annualRate input) \<and>
        interestPayment (sched ! i) =
          (if i = 0 then loanAmount input else PaymentDetail.balance (sched ! (i - 1))) *
            getMonthlyRate (interestRate (sched ! i)) \<and>
        principalPayment (sched ! i) =
          min (if i = 0 then loanAmount input else PaymentDetail.balance (sched ! (i - 1)))
              (originalMonthlyEMI res - interestPayment (sched ! i)
                 + amountOf (extraPaymentOn input (date (sched ! i)))
                 + amountOf (lumpSumOn input (date (sched ! i))))))"
proof -
  let ?res = "calculateAdvancedMortgage input"
  have "date (schedule ?res ! i) = getPaymentDate (loanStartDate input) i (emiPaymentDate input) \<and>
        interestRate (schedule ?res ! i) =
          (if hasFixedRatePeriod input
           then (if date_le (date (schedule ?res ! i)) endDate then fixed else variable)
           else AdvancedMortgageInput.annualRate input) \<and>
        interestPayment (schedule ?res ! i) =
          (if i = 0 then loanAmount input else PaymentDetail.balance (schedule ?res ! (i - 1))) *
            getMonthlyRate (interestRate (schedule ?res ! i)) \<and>
        principalPayment (schedule ?res ! i) =
          min (if i = 0 then loanAmount input else PaymentDetail.balance (schedule ?res ! (i - 1)))
              (originalMonthlyEMI ?res - interestPayment (schedule ?res ! i)
                 + amountOf (extraPaymentOn input (date (schedule ?res ! i)))
                 + amountOf (lumpSumOn input (date (schedule ?res ! i))))"
    if "i < length (schedule ?res)" for i
    using adv_schedule_periods[OF that] currentRateOn_configured[OF assms]
    unfolding period_ok_def by (simp only:) 
  then show ?thesis
    unfolding Let_def using adv_result_fields(5,6)[of input] by blast
qed

theorem effective_rate_and_constant_emi_witness:
  "hasFixedRatePeriod input_fixed_variable \<and>
   fixedRate input_fixed_variable = Some 12 \<and> variableRate input_fixed_variable = Some 24 \<and>
   fixedRateEndDate input_fixed_variable =
     Some \<lparr>fullYear = 2024, monthIndex = 1, dayOfMonth = 15, timeOfDay = 0\<rparr> \<and>
   0 < length (schedule (calculateAdvancedMortgage input_fixed_variable)) \<and>
   interestRate (schedule (calculateAdvancedMortgage input_fixed_variable) ! 0) = 12 \<and>
   interestPayment (schedule (calculateAdvancedMortgage input_fixed_variable) ! 0) = 12 \<and>
   principalPayment (schedule (calculateAdvancedMortgage input_fixed_variable) ! 0) = 388 \<and>
   newMonthlyEMI (calculateAdvancedMortgage input_fixed_variable) = 400"
proof -
  let ?res = "calculateAdvancedMortgage input_fixed_variable"
  have cfg: "hasFixedRatePeriod input_fixed_variable \<longrightarrow>
       fixedRate input_fixed_variable = Some 12 \<and> variableRate input_fixed_variable = Some 24 \<and>
       fixedRateEndDate input_fixed_variable =
         Some \<lparr>fullYear = 2024, monthIndex = 1, dayOfMonth = 15, timeOfDay = 0\<rparr>"
    by (simp add: input_fixed_variable_def)
  have ne: "0 < length (schedule ?res)"
    by (rule adv_schedule_nonempty) (simp_all add: input_fixed_variable_def)
  have d0: "getPaymentDate (loanStartDate input_fixed_variable) 0 (emiPaymentDate input_fixed_variable)
      = \<lparr>fullYear = 2024, monthIndex = 0, dayOfMonth = 10, timeOfDay = 0\<rparr>"
    by (simp add: input_fixed_variable_def getPaymentDate_def addMonths_def makeDate_def
        rollDays.simps daysInMonth_def isLeapYear_def Let_def)
  have emi: "calculateEMI (loanAmount input_fixed_variable)
       (getMonthlyRate (AdvancedMortgageInput.annualRate input_fixed_variable))
       (tenureMonths input_fixed_variable) = 400"
    by (simp add: input_fixed_variable_def calculateEMI_def getMonthlyRate_def)
  have x: "extraPaymentOn input_fixed_variable D = None" "lumpSumOn input_fixed_variable D = None" for D
    by (simp_all add: input_fixed_variable_def extraPaymentOn_def lumpSumOn_def)
  from effective_rate_and_constant_emi[OF cfg]
  have e1: "newMonthlyEMI ?res = originalMonthlyEMI ?res"
    and e2: "originalMonthlyEMI ?res =
       calculateEMI (loanAmount input_fixed_variable)
         (getMonthlyRate (AdvancedMortgageInput.annualRate input_fixed_variable))
         (tenureMonths input_fixed_variable)"
    and all: "\<forall>i<length (schedule ?res).
        date (schedule ?res ! i) =
          getPaymentDate (loanStartDate input_fixed_variable) i (emiPaymentDate input_fixed_variable) \<and>
        interestRate (schedule ?res ! i) =
          (if hasFixedRatePeriod input_fixed_variable
           then (if date_le (date (schedule ?res ! i))
                   \<lparr>fullYear = 2024, monthIndex = 1, dayOfMonth = 15, timeOfDay = 0\<rparr> then 12 else 24)
           else AdvancedMortgageInput.annualRate input_fixed_variable) \<and>
        interestPayment (schedule ?res ! i) =
          (if i = 0 then loanAmount input_fixed_variable
           else PaymentDetail.balance (schedule ?res ! (i - 1))) *
            getMonthlyRate (interestRate (schedule ?res ! i)) \<and>
        principalPayment (schedule ?res ! i) =
          min (if i = 0 then loanAmount input_fixed_variable
               else PaymentDetail.balance (schedule ?res ! (i - 1)))
              (originalMonthlyEMI ?res - interestPayment (schedule ?res ! i)
                 + amountOf (extraPaymentOn input_fixed_variable (date (schedule ?res ! i)))
                 + amountOf (lumpSumOn input_fixed_variable (date (schedule ?res ! i))))"
    unfolding Let_def by blast+
  have f: "loanAmount input_fixed_variable = 1200" "hasFixedRatePeriod input_fixed_variable"
    by (simp_all add: input_fixed_variable_def)
  from all ne have i0:
       "date (schedule ?res ! 0) =
          getPaymentDate (loanStartDate input_fixed_variable) 0 (emiPaymentDate input_fixed_variable)"
       "interestRate (schedule ?res ! 0) =
          (if hasFixedRatePeriod input_fixed_variable
           then (if date_le (date (schedule ?res ! 0))
                   \<lparr>fullYear = 2024, monthIndex = 1, dayOfMonth = 15, timeOfDay = 0\<rparr> then 12 else 24)
           else AdvancedMortgageInput.annualRate input_fixed_variable)"
       "interestPayment (schedule ?res ! 0) =
          (if (0::nat) = 0 then loanAmount input_fixed_variable
           else PaymentDetail.balance (schedule ?res ! (0 - 1))) *
            getMonthlyRate (interestRate (schedule ?res ! 0))"
       "principalPayment (schedule ?res ! 0) =
          min (if (0::nat) = 0 then loanAmount input_fixed_variable
               else PaymentDetail.balance (schedule ?res ! (0 - 1)))
              (originalMonthlyEMI ?res - interestPayment (schedule ?res ! 0)
                 + amountOf (extraPaymentOn input_fixed_variable (date (schedule ?res ! 0)))
                 + amountOf (lumpSumOn input_fixed_variable (date (schedule ?res ! 0))))"
    by blast+
  have r0: "date (schedule ?res ! 0) =
        \<lparr>fullYear = 2024, monthIndex = 0, dayOfMonth = 10, timeOfDay = 0\<rparr>"
    using i0(1) d0 by simp
  have r1: "interestRate (schedule ?res ! 0) = 12"
    using i0(2) f unfolding r0 by (simp add: date_le_def)
  have r2: "interestPayment (schedule ?res ! 0) = 12"
    using i0(3) f unfolding r1 by (simp add: getMonthlyRate_def)
  have r3: "principalPayment (schedule ?res ! 0) = 388"
    using i0(4) f unfolding r2 e2 emi x by (simp add: amountOf_def)
  have "fixedRate input_fixed_variable = Some 12" "variableRate input_fixed_variable = Some 24"
    "fixedRateEndDate input_fixed_variable =
       Some \<lparr>fullYear = 2024, monthIndex = 1, dayOfMonth = 15, timeOfDay = 0\<rparr>"
    by (simp_all add: input_fixed_variable_def)
  then show ?thesis using f ne r1 r2 r3 e1 e2 emi by simp
qed

subsection \<open>Lump sums and extra payments\<close>

text \<open>
  The example input that starts on 29 February 2024: its payment dates for the offsets 0
  to 13. In February 2025 there is no payment, and in March 2025 there are two.
\<close>

lemma leap_start_fields:
  "loanAmount input_leap_start = 360000"
  "tenureMonths input_leap_start = 360"
  "AdvancedMortgageInput.annualRate input_leap_start = 0"
  "currentRateOn input_leap_start D = 0"
  "extraPaymentOn input_leap_start D = None"
  "lumpSumOn input_leap_start D =
     (if fullYear D = 2025 \<and> monthIndex D = 2 then Some 173000 else None)"
  by (simp_all add: input_leap_start_def currentRateOn_def extraPaymentOn_def lumpSumOn_def
      isSameMonth_def)

lemma leap_start_dates:
  "getPaymentDate (loanStartDate input_leap_start) 0 (emiPaymentDate input_leap_start) =
     \<lparr>fullYear = 2024, monthIndex = 1, dayOfMonth = 29, timeOfDay = 0\<rparr>"
  "getPaymentDate (loanStartDate input_leap_start) (Suc 0) (emiPaymentDate input_leap_start) =
     \<lparr>fullYear = 2024, monthIndex = 2, dayOfMonth = 29, timeOfDay = 0\<rparr>"
  "getPaymentDate (loanStartDate input_leap_start) 2 (emiPaymentDate input_leap_start) =
     \<lparr>fullYear = 2024, monthIndex = 3, dayOfMonth = 29, timeOfDay = 0\<rparr>"
  "getPaymentDate (loanStartDate input_leap_start) 3 (emiPaymentDate input_leap_start) =
     \<lparr>fullYear = 2024, monthIndex = 4, dayOfMonth = 29, timeOfDay = 0\<rparr>"
  "getPaymentDate (loanStartDate input_leap_start) 4 (emiPaymentDate input_leap_start) =
     \<lparr>fullYear = 2024, monthIndex = 5, dayOfMonth = 29, timeOfDay = 0\<rparr>"
  "getPaymentDate (loanStartDate input_leap_start) 5 (emiPaymentDate input_leap_start) =
     \<lparr>fullYear = 2024, monthIndex = 6, dayOfMonth = 29, timeOfDay = 0\<rparr>"
  "getPaymentDate (loanStartDate input_leap_start) 6 (emiPaymentDate input_leap_start) =
     \<lparr>fullYear = 2024, monthIndex = 7, dayOfMonth = 29, timeOfDay = 0\<rparr>"
  "getPaymentDate (loanStartDate input_leap_start) 7 (emiPaymentDate input_leap_start) =
     \<lparr>fullYear = 2024, monthIndex = 8, dayOfMonth = 29, timeOfDay = 0\<rparr>"
  "getPaymentDate (loanStartDate input_leap_start) 8 (emiPaymentDate input_leap_start) =
     \<lparr>fullYear = 2024, monthIndex = 9, dayOfMonth = 29, timeOfDay = 0\<rparr>"
  "getPaymentDate (loanStartDate input_leap_start) 9 (emiPaymentDate input_leap_start) =
     \<lparr>fullYear = 2024, monthIndex = 10, dayOfMonth = 29, timeOfDay = 0\<rparr>"
  "getPaymentDate (loanStartDate input_leap_start) 10 (emiPaymentDate input_leap_start) =
     \<lparr>fullYear = 2024, monthIndex = 11, dayOfMonth = 29, timeOfDay = 0\<rparr>"
  "getPaymentDate (loanStartDate input_leap_start) 11 (emiPaymentDate input_leap_start) =
     \<lparr>fullYear = 2025, monthIndex = 0, dayOfMonth = 29, timeOfDay = 0\<rparr>"
  "getPaymentDate (loanStartDate input_leap_start) 12 (emiPaymentDate input_leap_start) =
     \<lparr>fullYear = 2025, monthIndex = 2, dayOfMonth = 29, timeOfDay = 0\<rparr>"
  "getPaymentDate (loanStartDate input_leap_start) 13 (emiPaymentDate input_leap_start) =
     \<lparr>fullYear = 2025, monthIndex = 2, dayOfMonth = 29, timeOfDay = 0\<rparr>"
  by (simp_all add: input_leap_start_def getPaymentDate_def addMonths_def makeDate_def
      rollDays.simps daysInMonth_def isLeapYear_def Let_def)

text \<open>
  C8. A lump sum dated in the calendar month of the 13th payment of a 360-month schedule
  flags exactly one record and is counted once in \<^verbatim>\<open>totalLumpSum\<close>. It is not so for a
  loan that starts on 29 February 2024: \<^verbatim>\<open>addMonths\<close> rolls 29 February 2025 over to
  1 March, the 13th and the 14th payment are both dated 29 March 2025, both records are
  flagged, and a lump sum of 173000 is counted as 346000.
\<close>

theorem lump_sum_counted_twice:
  "tenureMonths input_leap_start = 360 \<and>
   AdvancedMortgageInput.lumpSumAmount input_leap_start = Some 173000 \<and>
   lumpSumDate input_leap_start =
     Some \<lparr>fullYear = 2025, monthIndex = 2, dayOfMonth = 15, timeOfDay = 0\<rparr> \<and>
   isSameMonth
     (getPaymentDate (loanStartDate input_leap_start) 12 (emiPaymentDate input_leap_start))
     \<lparr>fullYear = 2025, monthIndex = 2, dayOfMonth = 15, timeOfDay = 0\<rparr> \<and>
   map isLumpSumMonth (schedule (calculateAdvancedMortgage input_leap_start)) =
     [False, False, False, False, False, False, False, False, False, False, False, False,
      True, True] \<and>
   totalLumpSum (calculateAdvancedMortgage input_leap_start) = 346000"
proof -
  let ?I = "input_leap_start"
  have emi: "calculateEMI (loanAmount ?I) (getMonthlyRate (AdvancedMortgageInput.annualRate ?I))
      (tenureMonths ?I) = 1000"
    by (simp add: leap_start_fields calculateEMI_def getMonthlyRate_def)
  define s0 where "s0 = adv_init ?I"
  have p0: "st_balance s0 = 360000 \<and> st_month s0 = 0 \<and> st_totalLumpSum s0 = 0 \<and>
      map isLumpSumMonth (st_schedule s0) = []"
    by (simp add: s0_def adv_init_def leap_start_fields)
  define s1 where "s1 = adv_step ?I 1000 s0"
  have p1: "st_balance s1 = 359000 \<and> st_month s1 = 1 \<and> st_totalLumpSum s1 = 0 \<and>
      map isLumpSumMonth (st_schedule s1) = [False]"
    unfolding s1_def using p0
    by (simp add: adv_step_month adv_step_projections[OF refl] leap_start_fields leap_start_dates
        getMonthlyRate_def amountOf_def)
  have l0: "adv_loop ?I 1000 s0 = adv_loop ?I 1000 s1"
    unfolding s1_def using p0 by (intro adv_loop_step) (simp add: adv_guard_def leap_start_fields)
  define s2 where "s2 = adv_step ?I 1000 s1"
  have p2: "st_balance s2 = 358000 \<and> st_month s2 = 2 \<and> st_totalLumpSum s2 = 0 \<and>
      map isLumpSumMonth (st_schedule s2) = [False, False]"
    unfolding s2_def using p1
    by (simp add: adv_step_month adv_step_projections[OF refl] leap_start_fields leap_start_dates
        getMonthlyRate_def amountOf_def)
  have l1: "adv_loop ?I 1000 s1 = adv_loop ?I 1000 s2"
    unfolding s2_def using p1 by (intro adv_loop_step) (simp add: adv_guard_def leap_start_fields)
  define s3 where "s3 = adv_step ?I 1000 s2"
  have p3: "st_balance s3 = 357000 \<and> st_month s3 = 3 \<and> st_totalLumpSum s3 = 0 \<and>
      map isLumpSumMonth (st_schedule s3) = [False, False, False]"
    unfolding s3_def using p2
    by (simp add: adv_step_month adv_step_projections[OF refl] leap_start_fields leap_start_dates
        getMonthlyRate_def amountOf_def)
  have l2: "adv_loop ?I 1000 s2 = adv_loop ?I 1000 s3"
    unfolding s3_def using p2 by (intro adv_loop_step) (simp add: adv_guard_def leap_start_fields)
  define s4 where "s4 = adv_step ?I 1000 s3"
  have p4: "st_balance s4 = 356000 \<and> st_month s4 = 4 \<and> st_totalLumpSum s4 = 0 \<and>
      map isLumpSumMonth (st_schedule s4) = [False, False, False, False]"
    unfolding s4_def using p3
    by (simp add: adv_step_month adv_step_projections[OF refl] leap_start_fields leap_start_dates
        getMonthlyRate_def amountOf_def)
  have l3: "adv_loop ?I 1000 s3 = adv_loop ?I 1000 s4"
    unfolding s4_def using p3 by (intro adv_loop_step) (simp add: adv_guard_def leap_start_fields)
  define s5 where "s5 = adv_step ?I 1000 s4"
  have p5: "st_balance s5 = 355000 \<and> st_month s5 = 5 \<and> st_totalLumpSum s5 = 0 \<and>
      map isLumpSumMonth (st_schedule s5) = [False, False, False, False, False]"
    unfolding s5_def using p4
    by (simp add: adv_step_month adv_step_projections[OF refl] leap_start_fields leap_start_dates
        getMonthlyRate_def amountOf_def)
  have l4: "adv_loop ?I 1000 s4 = adv_loop ?I 1000 s5"
    unfolding s5_def using p4 by (intro adv_loop_step) (simp add: adv_guard_def leap_start_fields)
  define s6 where "s6 = adv_step ?I 1000 s5"
  have p6: "st_balance s6 = 354000 \<and> st_month s6 = 6 \<and> st_totalLumpSum s6 = 0 \<and>
      map isLumpSumMonth (st_schedule s6) = [False, False, False, False, False, False]"
    unfolding s6_def using p5
    by (simp add: adv_step_month adv_step_projections[OF refl] leap_start_fields leap_start_dates
        getMonthlyRate_def amountOf_def)
  have l5: "adv_loop ?I 1000 s5 = adv_loop ?I 1000 s6"
    unfolding s6_def using p5 by (intro adv_loop_step) (simp add: adv_guard_def leap_start_fields)
  define s7 where "s7 = adv_step ?I 1000 s6"
  have p7: "st_balance s7 = 353000 \<and> st_month s7 = 7 \<and> st_totalLumpSum s7 = 0 \<and>
      map isLumpSumMonth (st_schedule s7) = [False, False, False, False, False, False, False]"
    unfolding s7_def using p6
    by (simp add: adv_step_month adv_step_projections[OF refl] leap_start_fields leap_start_dates
        getMonthlyRate_def amountOf_def)
  have l6: "adv_loop ?I 1000 s6 = adv_loop ?I 1000 s7"
    unfolding s7_def using p6 by (intro adv_loop_step) (simp add: adv_guard_def leap_start_fields)
  define s8 where "s8 = adv_step ?I 1000 s7"
  have p8: "st_balance s8 = 352000 \<and> st_month s8 = 8 \<and> st_totalLumpSum s8 = 0 \<and>
      map isLumpSumMonth (st_schedule s8) = [False, False, False, False, False, False, False, False]"
    unfolding s8_def using p7
    by (simp add: adv_step_month adv_step_projections[OF refl] leap_start_fields leap_start_dates
        getMonthlyRate_def amountOf_def)
  have l7: "adv_loop ?I 1000 s7 = adv_loop ?I 1000 s8"
    unfolding s8_def using p7 by (intro adv_loop_step) (simp add: adv_guard_def leap_start_fields)
  define s9 where "s9 = adv_step ?I 1000 s8"
  have p9: "st_balance s9 = 351000 \<and> st_month s9 = 9 \<and> st_totalLumpSum s9 = 0 \<and>
      map isLumpSumMonth (st_schedule s9) = [False, False, False, False, False, False, False, False, False]"
    unfolding s9_def using p8
    by (simp add: adv_step_month adv_step_projections[OF refl] leap_start_fields leap_start_dates
        getMonthlyRate_def amountOf_def)
  have l8: "adv_loop ?I 1000 s8 = adv_loop ?I 1000 s9"
    unfolding s9_def using p8 by (intro adv_loop_step) (simp add: adv_guard_def leap_start_fields)
  define s10 where "s10 = adv_step ?I 1000 s9"
  have p10: "st_balance s10 = 350000 \<and> st_month s10 = 10 \<and> st_totalLumpSum s10 = 0 \<and>
      map isLumpSumMonth (st_schedule s10) = [False, False, False, False, False, False, False, False, False, False]"
    unfolding s10_def using p9
    by (simp add: adv_step_month adv_step_projections[OF refl] leap_start_fields leap_start_dates
        getMonthlyRate_def amountOf_def)
  have l9: "adv_loop ?I 1000 s9 = adv_loop ?I 1000 s10"
    unfolding s10_def using p9 by (intro adv_loop_step) (simp add: adv_guard_def leap_start_fields)
  define s11 where "s11 = adv_step ?I 1000 s10"
  have p11: "st_balance s11 = 349000 \<and> st_month s11 = 11 \<and> st_totalLumpSum s11 = 0 \<and>
      map isLumpSumMonth (st_schedule s11) = [False, False, False, False, False, False, False, False, False, False, False]"
    unfolding s11_def using p10
    by (simp add: adv_step_month adv_step_projections[OF refl] leap_start_fields leap_start_dates
        getMonthlyRate_def amountOf_def)
  have l10: "adv_loop ?I 1000 s10 = adv_loop ?I 1000 s11"
    unfolding s11_def using p10 by (intro adv_loop_step) (simp add: adv_guard_def leap_start_fields)
  define s12 where "s12 = adv_step ?I 1000 s11"
  have p12: "st_balance s12 = 348000 \<and> st_month s12 = 12 \<and> st_totalLumpSum s12 = 0 \<and>
      map isLumpSumMonth (st_schedule s12) = [False, False, False, False, False, False, False, False, False, False, False, False]"
    unfolding s12_def using p11
    by (simp add: adv_step_month adv_step_projections[OF refl] leap_start_fields leap_start_dates
        getMonthlyRate_def amountOf_def)
  have l11: "adv_loop ?I 1000 s11 = adv_loop ?I 1000 s12"
    unfolding s12_def using p11 by (intro adv_loop_step) (simp add: adv_guard_def leap_start_fields)
  define s13 where "s13 = adv_step ?I 1000 s12"
  have p13: "st_balance s13 = 174000 \<and> st_month s13 = 13 \<and> st_totalLumpSum s13 = 173000 \<and>
      map isLumpSumMonth (st_schedule s13) = [False, False, False, False, False, False, False, False, False, False, False, False, True]"
    unfolding s13_def using p12
    by (simp add: adv_step_month adv_step_projections[OF refl] leap_start_fields leap_start_dates
        getMonthlyRate_def amountOf_def)
  have l12: "adv_loop ?I 1000 s12 = adv_loop ?I 1000 s13"
    unfolding s13_def using p12 by (intro adv_loop_step) (simp add: adv_guard_def leap_start_fields)
  define s14 where "s14 = adv_step ?I 1000 s13"
  have p14: "st_balance s14 = 0 \<and> st_month s14 = 14 \<and> st_totalLumpSum s14 = 346000 \<and>
      map isLumpSumMonth (st_schedule s14) = [False, False, False, False, False, False, False, False, False, False, False, False, True, True]"
    unfolding s14_def using p13
    by (simp add: adv_step_month adv_step_projections[OF refl] leap_start_fields leap_start_dates
        getMonthlyRate_def amountOf_def)
  have l13: "adv_loop ?I 1000 s13 = adv_loop ?I 1000 s14"
    unfolding s14_def using p13 by (intro adv_loop_step) (simp add: adv_guard_def leap_start_fields)
  have "adv_loop ?I 1000 s14 = s14"
    using p14 by (intro adv_loop_stop) (simp add: adv_guard_def)
  then have final: "adv_loop ?I 1000 (adv_init ?I) = s14"
    unfolding s0_def[symmetric] l0 l1 l2 l3 l4 l5 l6 l7 l8 l9 l10 l11 l12 l13 .
  have "schedule (calculateAdvancedMortgage ?I) = st_schedule s14"
    and "totalLumpSum (calculateAdvancedMortgage ?I) = st_totalLumpSum s14"
    by (simp_all add: calculateAdvancedMortgage_def Let_def emi final)
  moreover have "isSameMonth
     (getPaymentDate (loanStartDate ?I) 12 (emiPaymentDate ?I))
     \<lparr>fullYear = 2025, monthIndex = 2, dayOfMonth = 15, timeOfDay = 0\<rparr>"
    by (simp add: leap_start_fields leap_start_dates isSameMonth_def)
  moreover have "AdvancedMortgageInput.lumpSumAmount ?I = Some 173000"
    and "lumpSumDate ?I = Some \<lparr>fullYear = 2025, monthIndex = 2, dayOfMonth = 15, timeOfDay = 0\<rparr>"
    by (simp_all add: input_leap_start_def)
  ultimately show ?thesis using p14 by (simp add: leap_start_fields)
qed

text \<open>
  The condition under which a record is flagged, written out on the fields of the input,
  the payment date of every record, and the run of the loan of 1000 with an extra payment
  of 5000 in February 2024.
\<close>

lemmas adv_step_eval = adv_step_def getPaymentDate_def addMonths_def makeDate_def rollDays.simps
  daysInMonth_def isLeapYear_def Let_def currentRateOn_def extraPaymentOn_def lumpSumOn_def
  isSameMonth_def date_le_def getMonthlyRate_def

lemma large_extra_step_1:
  "adv_step input_large_extra 100 (adv_init input_large_extra) =
     \<lparr>st_balance = 900, st_totalInterestPaid = 0, st_totalLumpSum = 0,
      st_totalExtraPayments = 0, st_month = 1,
      st_schedule =
        [\<lparr>date = \<lparr>fullYear = 2024, monthIndex = 0, dayOfMonth = 10, timeOfDay = 0\<rparr>,
          monthNumber = 1, principalPayment = 100, interestPayment = 0, totalPayment = 100,
          balance = 900, isLumpSumMonth = False, isExtraPaymentMonth = False,
          interestRate = 0\<rparr>]\<rparr>"
  by (simp add: input_large_extra_def adv_init_def adv_step_eval)

lemma large_extra_step_2:
  "adv_step input_large_extra 100
     \<lparr>st_balance = 900, st_totalInterestPaid = 0, st_totalLumpSum = 0,
      st_totalExtraPayments = 0, st_month = 1, st_schedule = sched\<rparr> =
     \<lparr>st_balance = 0, st_totalInterestPaid = 0, st_totalLumpSum = 0,
      st_totalExtraPayments = 5000, st_month = 2,
      st_schedule = sched @
        [\<lparr>date = \<lparr>fullYear = 2024, monthIndex = 1, dayOfMonth = 10, timeOfDay = 0\<rparr>,
          monthNumber = 2, principalPayment = 900, interestPayment = 0, totalPayment = 900,
          balance = 0, isLumpSumMonth = False, isExtraPaymentMonth = True,
          interestRate = 0\<rparr>]\<rparr>"
  by (simp add: input_large_extra_def adv_step_eval)

lemma large_extra_result:
  "map isExtraPaymentMonth (schedule (calculateAdvancedMortgage input_large_extra)) = [False, True] \<and>
   map principalPayment (schedule (calculateAdvancedMortgage input_large_extra)) = [100, 900] \<and>
   totalExtraPayments (calculateAdvancedMortgage input_large_extra) = 5000"
proof -
  let ?I = "input_large_extra"
  have emi: "calculateEMI (loanAmount ?I) (getMonthlyRate (AdvancedMortgageInput.annualRate ?I))
      (tenureMonths ?I) = 100"
    by (simp add: input_large_extra_def calculateEMI_def getMonthlyRate_def)
  have g0: "adv_guard ?I (adv_init ?I)"
    by (simp add: adv_guard_def adv_init_def input_large_extra_def)
  have g1: "adv_guard ?I (adv_step ?I 100 (adv_init ?I))"
    unfolding large_extra_step_1 by (simp add: adv_guard_def input_large_extra_def)
  have g2: "\<not> adv_guard ?I (adv_step ?I 100 (adv_step ?I 100 (adv_init ?I)))"
    unfolding large_extra_step_1 large_extra_step_2 by (simp add: adv_guard_def)
  have "adv_loop ?I 100 (adv_init ?I) = adv_step ?I 100 (adv_step ?I 100 (adv_init ?I))"
    using g0 g1 g2 by (simp add: adv_loop_step adv_loop_stop)
  then show ?thesis
    unfolding large_extra_step_1 large_extra_step_2
    by (simp add: calculateAdvancedMortgage_def Let_def emi)
qed

lemma extraPaymentOn_explicit:
  "(extraPaymentOn input D \<noteq> None) =
     (case (extraPaymentStartDate input, extraPaymentEndDate input, extraPaymentAmount input) of
        (Some startDate, Some endDate, Some amount) \<Rightarrow>
          hasExtraPayments input \<and> amount \<noteq> 0 \<and> date_le startDate D \<and> date_le D endDate
      | _ \<Rightarrow> False)"
  by (simp add: extraPaymentOn_def split: bool.splits option.splits)

lemma lumpSumOn_explicit:
  "(lumpSumOn input D \<noteq> None) =
     (case (lumpSumDate input, AdvancedMortgageInput.lumpSumAmount input) of
        (Some lumpDate, Some amount) \<Rightarrow>
          hasLumpSum input \<and> amount \<noteq> 0 \<and>
          fullYear D = fullYear lumpDate \<and> monthIndex D = monthIndex lumpDate
      | _ \<Rightarrow> False)"
  by (simp add: lumpSumOn_def isSameMonth_def split: bool.splits option.splits)

lemma adv_schedule_dates:
  "map date (schedule (calculateAdvancedMortgage input)) =
     map (\<lambda>i. getPaymentDate (loanStartDate input) i (emiPaymentDate input))
       [0..<length (schedule (calculateAdvancedMortgage input))]"
proof (rule nth_equalityI)
  show "length (map date (schedule (calculateAdvancedMortgage input))) =
      length (map (\<lambda>i. getPaymentDate (loanStartDate input) i (emiPaymentDate input))
       [0..<length (schedule (calculateAdvancedMortgage input))])"
    by simp
next
  fix i assume "i < length (map date (schedule (calculateAdvancedMortgage input)))"
  then have i: "i < length (schedule (calculateAdvancedMortgage input))" by simp
  from adv_schedule_periods[OF i]
  have "date (schedule (calculateAdvancedMortgage input) ! i) =
      getPaymentDate (loanStartDate input) i (emiPaymentDate input)"
    by (simp add: period_ok_def)
  then show "map date (schedule (calculateAdvancedMortgage input)) ! i =
      map (\<lambda>i. getPaymentDate (loanStartDate input) i (emiPaymentDate input))
       [0..<length (schedule (calculateAdvancedMortgage input))] ! i"
    using i by simp
qed

text \<open>
  C10. The totals of the date-aware engine add the whole configured amount for every
  period whose payment date is in the calendar month of the lump sum, or between the
  start and the end of the extra-payment window (both included), whether or not the clamp
  at the end of the loan cuts the principal component of that period. The record of
  period \<open>i\<close> carries the payment date of offset \<open>i\<close>; it is flagged exactly when that
  date meets the condition and the block is switched on with a non-zero amount; and each
  total is the configured amount times the number of flagged records. So a total can
  exceed what was paid off. A loan of 1000 with an extra payment of 5000 in the window of
  February 2024 pays 100 in January, outside the window, and the remaining 900 in
  February, and reports extra payments of 5000. A loan of 1000 with a lump sum of 5000 in
  the first month pays 1000 and reports a lump-sum total of 5000.
\<close>

theorem totals_count_full_amounts:
  "(let res = calculateAdvancedMortgage input; sched = schedule res in
      map date sched =
        map (\<lambda>i. getPaymentDate (loanStartDate input) i (emiPaymentDate input))
          [0..<length sched] \<and>
      map isExtraPaymentMonth sched =
        map (\<lambda>d. case (extraPaymentStartDate input, extraPaymentEndDate input,
                         extraPaymentAmount input) of
                    (Some startDate, Some endDate, Some amount) \<Rightarrow>
                      hasExtraPayments input \<and> amount \<noteq> 0 \<and>
                      date_le startDate (date d) \<and> date_le (date d) endDate
                  | _ \<Rightarrow> False) sched \<and>
      map isLumpSumMonth sched =
        map (\<lambda>d. case (lumpSumDate input, AdvancedMortgageInput.lumpSumAmount input) of
                    (Some lumpDate, Some amount) \<Rightarrow>
                      hasLumpSum input \<and> amount \<noteq> 0 \<and>
                      fullYear (date d) = fullYear lumpDate \<and>
                      monthIndex (date d) = monthIndex lumpDate
                  | _ \<Rightarrow> False) sched \<and>
      totalExtraPayments res =
        amountOf (extraPaymentAmount input) * real (length (filter isExtraPaymentMonth sched)) \<and>
      totalLumpSum res =
        amountOf (AdvancedMortgageInput.lumpSumAmount input) *
          real (length (filter isLumpSumMonth sched))) \<and>
   map isExtraPaymentMonth (schedule (calculateAdvancedMortgage input_large_extra)) =
     [False, True] \<and>
   map principalPayment (schedule (calculateAdvancedMortgage input_large_extra)) = [100, 900] \<and>
   totalExtraPayments (calculateAdvancedMortgage input_large_extra) = 5000 \<and>
   map isLumpSumMonth (schedule (calculateAdvancedMortgage input_large_lump)) = [True] \<and>
   map principalPayment (schedule (calculateAdvancedMortgage input_large_lump)) = [1000] \<and>
   totalLumpSum (calculateAdvancedMortgage input_large_lump) = 5000"
proof -
  let ?s = "schedule (calculateAdvancedMortgage input)"
  have ex: "map isExtraPaymentMonth ?s =
        map (\<lambda>d. case (extraPaymentStartDate input, extraPaymentEndDate input,
                         extraPaymentAmount input) of
                    (Some startDate, Some endDate, Some amount) \<Rightarrow>
                      hasExtraPayments input \<and> amount \<noteq> 0 \<and>
                      date_le startDate (date d) \<and> date_le (date d) endDate
                  | _ \<Rightarrow> False) ?s"
    by (rule map_cong) (simp_all only: adv_schedule_flags extraPaymentOn_explicit)
  have lu: "map isLumpSumMonth ?s =
        map (\<lambda>d. case (lumpSumDate input, AdvancedMortgageInput.lumpSumAmount input) of
                    (Some lumpDate, Some amount) \<Rightarrow>
                      hasLumpSum input \<and> amount \<noteq> 0 \<and>
                      fullYear (date d) = fullYear lumpDate \<and>
                      monthIndex (date d) = monthIndex lumpDate
                  | _ \<Rightarrow> False) ?s"
    by (rule map_cong) (simp_all only: adv_schedule_flags lumpSumOn_explicit)
  have lump: "map isLumpSumMonth (schedule (calculateAdvancedMortgage input_large_lump)) = [True] \<and>
      map principalPayment (schedule (calculateAdvancedMortgage input_large_lump)) = [1000] \<and>
      totalLumpSum (calculateAdvancedMortgage input_large_lump) = 5000"
    by (simp add: calculateAdvancedMortgage_def input_large_lump_def adv_eval)
  show ?thesis
    unfolding Let_def
    using adv_schedule_dates[of input] ex lu adv_totals[of input] large_extra_result lump
    by blast
qed

subsection \<open>Overpayment and schedule length\<close>




end
